theory Spec2Isabelle
  imports Complex_Main
begin

unbundle bit_operations_syntax

section \<open>Python values used by safetar\<close>

text \<open>
  A Python \<open>str\<close> is a sequence of Unicode code points; \<open>len\<close> counts code points.
  Code points are natural numbers here, and ASCII literals are written through \<open>ascii\<close>.
  A \<open>pathlib.Path\<close> on POSIX is represented by its string form \<open>str(path)\<close>; two
  paths are equal exactly when their string forms are. The model is the POSIX one
  throughout: \<open>os.sep\<close> is the slash.
\<close>

type_synonym codepoint = nat
type_synonym pystr = "codepoint list"
type_synonym path = pystr

definition ascii :: "string \<Rightarrow> pystr" where
  "ascii s = map of_char s"

abbreviation SLASH :: codepoint where "SLASH \<equiv> 47"
abbreviation BACKSLASH :: codepoint where "BACKSLASH \<equiv> 92"
abbreviation DOT :: codepoint where "DOT \<equiv> 46"
abbreviation COLON :: codepoint where "COLON \<equiv> 58"
abbreviation NUL :: codepoint where "NUL \<equiv> 0"

text \<open>\<open>s.startswith(p)\<close>.\<close>

definition startswith :: "'a list \<Rightarrow> 'a list \<Rightarrow> bool" where
  "startswith s p = (take (length p) s = p)"

text \<open>\<open>s.replace(old, new)\<close> for one-character \<open>old\<close> and \<open>new\<close>.\<close>

definition str_replace :: "'a \<Rightarrow> 'a \<Rightarrow> 'a list \<Rightarrow> 'a list" where
  "str_replace old new s = map (\<lambda>c. if c = old then new else c) s"

text \<open>\<open>s.split(sep)\<close> for a one-character separator: always at least one part.\<close>

fun str_split :: "'a \<Rightarrow> 'a list \<Rightarrow> 'a list list" where
  "str_split sep [] = [[]]"
| "str_split sep (c # cs) =
     (if c = sep then [] # str_split sep cs
      else (case str_split sep cs of
              [] \<Rightarrow> [[c]]
            | p # ps \<Rightarrow> (c # p) # ps))"

text \<open>\<open>sep.join(parts)\<close>.\<close>

fun str_join :: "'a list \<Rightarrow> 'a list list \<Rightarrow> 'a list" where
  "str_join sep [] = []"
| "str_join sep [p] = p"
| "str_join sep (p # q # ps) = p @ sep @ str_join sep (q # ps)"

subsection \<open>Exceptions\<close>

text \<open>
  The exception classes of \<open>_exceptions.py\<close>, each carrying a tag for the \<open>raise\<close>
  statement that produced it (the message of the source), and the built-in or
  \<open>tarfile\<close> exception classes the source names in its handlers. Three classes the
  source names nowhere reach it from the standard library: \<open>RuntimeError\<close>, which
  \<open>Path.resolve()\<close> raises on a symlink loop (Python 3.10 to 3.12), and \<open>zlib.error\<close>
  and \<open>lzma.LZMAError\<close>, which the decompressor of a compressed archive raises on
  corrupt data. None of the three is a subclass of \<open>OSError\<close>, \<open>tarfile.TarError\<close> or
  \<open>EOFError\<close>. \<open>OtherError\<close> stands for any other subclass of \<open>Exception\<close>.
\<close>

datatype reason =
    AbsolutePath | AbsoluteWindowsPath | PathTraversal | EmptyPath | NullByte
  | PathTooLong | EscapesBase
  | SymlinkTargetEscapes | SymlinkChainEscapes | SymlinkChainTooDeep
  | ForwardReference | TargetMissing
  | SymlinkRejected | HardlinkRejected
  | EmptyFilename | FilenameNullByte | FilenameTooLong
  | PaxNullByte | PaxTooLong

datatype type_reason = SparseRejected | ForbiddenType pystr | UnrecognisedType

datatype exc =
    UnsafeEntryError reason
  | UnsafeEntryTypeError type_reason
  | FileSizeExceededError
  | TotalSizeExceededError
  | CompressionRatioError
  | FileCountExceededError
  | NestingDepthError
  | MalformedArchiveError
  | TarError
  | EOFError
  | OSError
  | KeyError
  | TypeError
  | ZeroDivisionError
  | ValueError
  | RuntimeError
  | ZlibError
  | LZMAError
  | OtherError

text \<open>\<open>isinstance(e, SafetarError)\<close>.\<close>

fun is_SafetarError :: "exc \<Rightarrow> bool" where
  "is_SafetarError (UnsafeEntryError _) = True"
| "is_SafetarError (UnsafeEntryTypeError _) = True"
| "is_SafetarError FileSizeExceededError = True"
| "is_SafetarError TotalSizeExceededError = True"
| "is_SafetarError CompressionRatioError = True"
| "is_SafetarError FileCountExceededError = True"
| "is_SafetarError NestingDepthError = True"
| "is_SafetarError MalformedArchiveError = True"
| "is_SafetarError _ = False"

fun is_UnsafeEntryError :: "exc + 'a \<Rightarrow> bool" where
  "is_UnsafeEntryError (Inl (UnsafeEntryError _)) = True"
| "is_UnsafeEntryError _ = False"

subsection \<open>The operating system and the Python runtime\<close>

text \<open>
  Everything the source asks of the world outside the repository is a field of the
  environment: Unicode tables, the process's credentials, float arithmetic, the
  queries on the filesystem and the calls that change it. The filesystem state is an
  abstract type \<open>'fs\<close>; \<open>'r\<close> is the type of Python floats.
  \<^item> \<open>resolve fs p\<close> is \<open>Path(p).resolve()\<close>: \<open>Inl e\<close> when it raises \<open>e\<close>, which is
    \<open>OSError\<close> or, on a symlink loop, \<open>RuntimeError\<close>;
  \<^item> \<open>readlink fs p\<close> is \<open>os.readlink(p)\<close>: \<open>None\<close> when it raises \<open>OSError\<close>;
  \<^item> \<open>os_call fs c\<close> performs the state-changing call \<open>c\<close>: the flag is \<open>False\<close> when
    the call raises \<open>OSError\<close>;
  \<^item> \<open>rand_tag fs\<close> is the text \<open>f"{os.getpid()}_{random.randint(0, 999999):06d}"\<close>
    as drawn in state \<open>fs\<close>.
  \<open>Mkdir p\<close> is \<open>p.mkdir(parents=True, exist_ok=True)\<close>, \<open>Unlink p\<close> is
  \<open>p.unlink(missing_ok=True)\<close>, \<open>OpenWb\<close>, \<open>Write\<close> and \<open>Close\<close> are the steps of
  \<open>open(p, "wb")\<close>, and \<open>Callback\<close> is the call of \<open>on_security_event\<close>.
  The world is the filesystem together with the log of the calls made so far.
\<close>

type_synonym bytes = "char list"

datatype os_op =
    Mkdir path
  | Link path path
  | Symlink pystr path
  | Touch path
  | OpenWb path
  | Write path bytes
  | Close path
  | Rename path path
  | Unlink path
  | Chown path int int
  | Chmod path int
  | Utime path int
  | Callback pystr

record ('fs, 'r) env =
  nfc :: "pystr \<Rightarrow> pystr"
  isalpha :: "codepoint \<Rightarrow> bool"
  isspace :: "codepoint \<Rightarrow> bool"
  getuid :: int
  getgid :: int
  geteuid :: int
  getegid :: int
  now :: int
  rand_tag :: "'fs \<Rightarrow> pystr"
  truediv :: "int \<Rightarrow> int \<Rightarrow> 'r"
  fgt :: "'r \<Rightarrow> 'r \<Rightarrow> bool"
  resolve :: "'fs \<Rightarrow> path \<Rightarrow> exc + path"
  path_exists :: "'fs \<Rightarrow> path \<Rightarrow> bool"
  is_symlink :: "'fs \<Rightarrow> path \<Rightarrow> bool"
  readlink :: "'fs \<Rightarrow> path \<Rightarrow> pystr option"
  os_call :: "'fs \<Rightarrow> os_op \<Rightarrow> bool \<times> 'fs"

record 'fs world =
  fsys :: 'fs
  trace :: "(os_op \<times> bool) list"

definition do_call :: "('fs, 'r) env \<Rightarrow> os_op \<Rightarrow> 'fs world \<Rightarrow> bool \<times> 'fs world" where
  "do_call env c w =
     (let (ok, fs') = os_call env (fsys w) c
      in (ok, \<lparr> fsys = fs', trace = trace w @ [(c, ok)] \<rparr>))"

subsection \<open>Pure paths (\<open>pathlib.PurePosixPath\<close>)\<close>

text \<open>
  A pure POSIX path is a root (\<open>/\<close>, \<open>//\<close> or none) and a list of parts; empty parts
  and single dots are dropped when a string is parsed, double dots are kept.
  \<open>joinpath a b\<close> is \<open>a / b\<close>, \<open>path_parent p\<close> is \<open>p.parent\<close>.
\<close>

definition path_root :: "pystr \<Rightarrow> pystr" where
  "path_root s =
     (if startswith s [SLASH, SLASH] \<and> \<not> startswith s [SLASH, SLASH, SLASH] then [SLASH, SLASH]
      else if startswith s [SLASH] then [SLASH]
      else [])"

definition path_parts :: "pystr \<Rightarrow> pystr list" where
  "path_parts s = filter (\<lambda>p. p \<noteq> [] \<and> p \<noteq> [DOT]) (str_split SLASH s)"

definition path_str :: "pystr \<Rightarrow> pystr list \<Rightarrow> path" where
  "path_str rt parts =
     (if rt = [] \<and> parts = [] then [DOT] else rt @ str_join [SLASH] parts)"

definition joinpath :: "path \<Rightarrow> pystr \<Rightarrow> path" where
  "joinpath a b =
     (if path_root b \<noteq> [] then path_str (path_root b) (path_parts b)
      else path_str (path_root a) (path_parts a @ path_parts b))"

definition path_parent :: "path \<Rightarrow> path" where
  "path_parent p = path_str (path_root p) (butlast (path_parts p))"

text \<open>
  The containment test the source writes out three times:
  \<open>real == base or str(real).startswith(str(base) + os.sep)\<close>.
\<close>

definition inside_base :: "path \<Rightarrow> path \<Rightarrow> bool" where
  "inside_base base rl = (rl = base \<or> startswith rl (base @ [SLASH]))"

section \<open>Phase A, the Guard: \<open>_guard.py\<close>\<close>

text \<open>
  A \<open>tarfile.TarInfo\<close> header, with the fields the source reads. \<open>tar_type\<close> is
  \<open>info.type\<close>, one byte. \<open>sparse\<close> is \<open>None\<close> or a list of (offset, size) pairs.
  \<open>pax_headers\<close> is a dictionary, looked up with \<open>map_of\<close>. \<open>content\<close> is what
  \<open>TarFile.extractfile(info)\<close> gives: no stream, an exception, or a stream whose
  successive \<open>read\<close> calls return the chunks listed and then either the empty
  chunk or an exception.
\<close>

datatype content =
    NoStream
  | ExtractRaises exc
  | Stream "bytes list" "exc option"

record tarinfo =
  name :: pystr
  tar_type :: char
  linkname :: pystr
  sparse :: "(nat \<times> nat) list option"
  pax_headers :: "(pystr \<times> pystr) list"
  uid :: int
  gid :: int
  mode :: "int option"
  mtime :: int
  content :: content

text \<open>The type codes of Python's \<open>tarfile\<close> module.\<close>

definition REGTYPE :: char where "REGTYPE = CHR ''0''"
definition AREGTYPE :: char where "AREGTYPE = CHR 0x00"
definition LNKTYPE :: char where "LNKTYPE = CHR ''1''"
definition SYMTYPE :: char where "SYMTYPE = CHR ''2''"
definition CHRTYPE :: char where "CHRTYPE = CHR ''3''"
definition BLKTYPE :: char where "BLKTYPE = CHR ''4''"
definition DIRTYPE :: char where "DIRTYPE = CHR ''5''"
definition FIFOTYPE :: char where "FIFOTYPE = CHR ''6''"
definition CONTTYPE :: char where "CONTTYPE = CHR ''7''"
definition GNUTYPE_SPARSE :: char where "GNUTYPE_SPARSE = CHR ''S''"

lemmas tar_type_defs = REGTYPE_def AREGTYPE_def LNKTYPE_def SYMTYPE_def CHRTYPE_def
  BLKTYPE_def DIRTYPE_def FIFOTYPE_def CONTTYPE_def GNUTYPE_SPARSE_def

definition REGULAR_TYPES :: "char set" where "REGULAR_TYPES = {REGTYPE, AREGTYPE, CONTTYPE}"
definition DIR_TYPE :: "char set" where "DIR_TYPE = {DIRTYPE}"
definition SYMLINK_TYPE :: "char set" where "SYMLINK_TYPE = {SYMTYPE}"
definition HARDLINK_TYPE :: "char set" where "HARDLINK_TYPE = {LNKTYPE}"
definition FORBIDDEN_TYPES :: "char set" where "FORBIDDEN_TYPES = {CHRTYPE, BLKTYPE, FIFOTYPE}"

lemmas type_set_defs = REGULAR_TYPES_def DIR_TYPE_def SYMLINK_TYPE_def HARDLINK_TYPE_def
  FORBIDDEN_TYPES_def

text \<open>The policies of \<open>_events.py\<close> and the disposition strings of the Guard.\<close>

datatype SymlinkPolicy = SYMLINK_REJECT | SYMLINK_IGNORE | SYMLINK_RESOLVE_INTERNAL
datatype HardlinkPolicy = HARDLINK_REJECT | HARDLINK_INTERNAL
datatype SparsePolicy = SPARSE_REJECT | SPARSE_MATERIALISE
datatype disposition = Extract | Skip | DeferSymlink

definition is_sparse :: "tarinfo \<Rightarrow> bool" where
  "is_sparse info =
     (if (case sparse info of None \<Rightarrow> False | Some l \<Rightarrow> l \<noteq> []) then True
      else if tar_type info = GNUTYPE_SPARSE then True
      else map_of (pax_headers info) (ascii ''GNU.sparse.major'') \<noteq> None
         \<or> map_of (pax_headers info) (ascii ''GNU.sparse.size'') \<noteq> None)"

text \<open>\<open>_type_names.get(info.type, "forbidden")\<close>.\<close>

definition type_names_get :: "char \<Rightarrow> pystr" where
  "type_names_get t =
     (if t = CHRTYPE then ascii ''character device''
      else if t = BLKTYPE then ascii ''block device''
      else if t = FIFOTYPE then ascii ''FIFO''
      else ascii ''forbidden'')"

definition validate_entry_type ::
  "tarinfo \<Rightarrow> SymlinkPolicy \<Rightarrow> HardlinkPolicy \<Rightarrow> SparsePolicy \<Rightarrow> exc + disposition" where
  "validate_entry_type info symlink_policy hardlink_policy sparse_policy =
     (if is_sparse info then
        (if sparse_policy = SPARSE_REJECT then Inl (UnsafeEntryTypeError SparseRejected)
         else Inr Extract)
      else if tar_type info \<in> REGULAR_TYPES then Inr Extract
      else if tar_type info \<in> DIR_TYPE then Inr Extract
      else if tar_type info \<in> SYMLINK_TYPE then
        (case symlink_policy of
           SYMLINK_REJECT \<Rightarrow> Inl (UnsafeEntryError SymlinkRejected)
         | SYMLINK_IGNORE \<Rightarrow> Inr Skip
         | SYMLINK_RESOLVE_INTERNAL \<Rightarrow> Inr DeferSymlink)
      else if tar_type info \<in> HARDLINK_TYPE then
        (case hardlink_policy of
           HARDLINK_REJECT \<Rightarrow> Inl (UnsafeEntryError HardlinkRejected)
         | HARDLINK_INTERNAL \<Rightarrow> Inr Extract)
      else if tar_type info \<in> FORBIDDEN_TYPES then
        Inl (UnsafeEntryTypeError (ForbiddenType (type_names_get (tar_type info))))
      else Inl (UnsafeEntryTypeError UnrecognisedType))"

text \<open>\<open>MAX_PATH\<close>: both \<open>_guard.py\<close> and \<open>_sandbox.py\<close> define it as 4096.\<close>

definition MAX_PATH :: nat where
  "MAX_PATH = 4096"

text \<open>\<open>s.strip()\<close>: whitespace removed at both ends.\<close>

definition str_strip :: "('fs, 'r) env \<Rightarrow> pystr \<Rightarrow> pystr" where
  "str_strip env s = rev (dropWhile (isspace env) (rev (dropWhile (isspace env) s)))"

definition effective_name :: "tarinfo \<Rightarrow> pystr" where
  "effective_name info = name info"

definition validate_filename :: "('fs, 'r) env \<Rightarrow> tarinfo \<Rightarrow> exc + pystr" where
  "validate_filename env info =
     (let nm = effective_name info in
      if nm = [] \<or> str_strip env nm = [] then Inl (UnsafeEntryError EmptyFilename)
      else if NUL \<in> set nm then Inl (UnsafeEntryError FilenameNullByte)
      else if length nm > MAX_PATH then Inl (UnsafeEntryError FilenameTooLong)
      else Inr nm)"

definition validate_pax_path :: "tarinfo \<Rightarrow> exc + pystr option" where
  "validate_pax_path info =
     (case map_of (pax_headers info) (ascii ''path'') of
        None \<Rightarrow> Inr None
      | Some pax_path \<Rightarrow>
          if NUL \<in> set pax_path then Inl (UnsafeEntryError PaxNullByte)
          else if length pax_path > MAX_PATH then Inl (UnsafeEntryError PaxTooLong)
          else Inr (Some pax_path))"

section \<open>Phase B, the Sandbox: \<open>_sandbox.py\<close>\<close>

text \<open>
  The loop of \<open>resolve_member_path\<close> over the parts of the name: empty parts and
  single dots are skipped, a double dot raises, any other part is appended.
\<close>

fun clean_parts :: "pystr list \<Rightarrow> pystr list \<Rightarrow> exc + pystr list" where
  "clean_parts [] acc = Inr acc"
| "clean_parts (part # parts) acc =
     (if part = [] \<or> part = [DOT] then clean_parts parts acc
      else if part = [DOT, DOT] then Inl (UnsafeEntryError PathTraversal)
      else clean_parts parts (acc @ [part]))"

text \<open>
  \<open>try: real = p.resolve()\<close> with the handler \<open>except OSError: real = p\<close>, which is
  also \<open>with contextlib.suppress(OSError): current = current.resolve()\<close>: an
  \<open>OSError\<close> falls back to the path itself, any other exception propagates.
\<close>

definition try_resolve :: "('fs, 'r) env \<Rightarrow> 'fs \<Rightarrow> path \<Rightarrow> exc + path" where
  "try_resolve env fs p =
     (case resolve env fs p of
        Inr r \<Rightarrow> Inr r
      | Inl e \<Rightarrow> if e = OSError then Inr p else Inl e)"

text \<open>
  \<open>resolve_member_path\<close>. The base directory is resolved first, outside any handler, so
  an exception there propagates; the resolution of the composed path sits in a
  \<open>try\<close> whose handler, for \<open>OSError\<close> only, falls back to the composed path itself.
\<close>

definition resolve_member_path ::
  "('fs, 'r) env \<Rightarrow> 'fs \<Rightarrow> path \<Rightarrow> pystr \<Rightarrow> exc + path" where
  "resolve_member_path env fs base_dir member_name =
     (case resolve env fs base_dir of
        Inl e \<Rightarrow> Inl e
      | Inr base \<Rightarrow>
          let normalized = nfc env member_name;
              nrm = str_replace BACKSLASH SLASH normalized
          in
          if startswith nrm [SLASH] then Inl (UnsafeEntryError AbsolutePath)
          else if length nrm \<ge> 3 \<and> nrm ! 1 = COLON \<and> nrm ! 2 = SLASH \<and> isalpha env (nrm ! 0)
            then Inl (UnsafeEntryError AbsoluteWindowsPath)
          else
            (case clean_parts (str_split SLASH nrm) [] of
               Inl e \<Rightarrow> Inl e
             | Inr parts \<Rightarrow>
                 if parts = [] then Inl (UnsafeEntryError EmptyPath)
                 else
                   let joined = str_join [SLASH] parts in
                   if NUL \<in> set joined then Inl (UnsafeEntryError NullByte)
                   else
                     let resolved = joinpath base joined in
                     if length resolved > MAX_PATH then Inl (UnsafeEntryError PathTooLong)
                     else
                       (case try_resolve env fs resolved of
                          Inl e \<Rightarrow> Inl e
                        | Inr rl \<Rightarrow>
                            if \<not> inside_base base rl then Inl (UnsafeEntryError EscapesBase)
                            else Inr resolved)))"

text \<open>
  \<open>verify_symlink_chain\<close>: the loop over \<open>range(max_follow)\<close> is \<open>follow_chain\<close>.
  \<open>os.readlink\<close> and the \<open>resolve()\<close> inside the loop are not guarded in the source,
  so whatever they raise propagates.
\<close>

fun follow_chain :: "('fs, 'r) env \<Rightarrow> 'fs \<Rightarrow> path \<Rightarrow> nat \<Rightarrow> path \<Rightarrow> exc + unit" where
  "follow_chain env fs base 0 current = Inl (UnsafeEntryError SymlinkChainTooDeep)"
| "follow_chain env fs base (Suc n) current =
     (if \<not> is_symlink env fs current then Inr ()
      else (case readlink env fs current of
              None \<Rightarrow> Inl OSError
            | Some link_target \<Rightarrow>
                (case resolve env fs (joinpath (path_parent current) link_target) of
                   Inl e \<Rightarrow> Inl e
                 | Inr current' \<Rightarrow>
                     if \<not> inside_base base current'
                     then Inl (UnsafeEntryError SymlinkChainEscapes)
                     else follow_chain env fs base n current')))"

definition verify_symlink_chain ::
  "('fs, 'r) env \<Rightarrow> 'fs \<Rightarrow> path \<Rightarrow> path \<Rightarrow> pystr \<Rightarrow> nat \<Rightarrow> exc + unit" where
  "verify_symlink_chain env fs base_dir symlink_path symlink_target max_follow =
     (case resolve env fs base_dir of
        Inl e \<Rightarrow> Inl e
      | Inr base \<Rightarrow>
          (case try_resolve env fs (joinpath (path_parent symlink_path) symlink_target) of
             Inl e \<Rightarrow> Inl e
           | Inr current \<Rightarrow>
               if \<not> inside_base base current then Inl (UnsafeEntryError SymlinkTargetEscapes)
               else follow_chain env fs base max_follow current))"

definition verify_hardlink_target ::
  "('fs, 'r) env \<Rightarrow> 'fs \<Rightarrow> path \<Rightarrow> path \<Rightarrow> pystr \<Rightarrow> path set \<Rightarrow> exc + path" where
  "verify_hardlink_target env fs base_dir link_name_resolved link_target extracted_paths =
     (case resolve_member_path env fs base_dir link_target of
        Inl e \<Rightarrow> Inl e
      | Inr target_resolved \<Rightarrow>
          if target_resolved \<notin> extracted_paths then Inl (UnsafeEntryError ForwardReference)
          else if \<not> path_exists env fs target_resolved then Inl (UnsafeEntryError TargetMissing)
          else Inr target_resolved)"

text \<open>
  The permission bits of Python's \<open>stat\<close> module: \<open>S_ISUID | S_ISGID | S_ISVTX\<close> is
  octal 7000 and \<open>S_IWUSR | S_IWGRP | S_IWOTH\<close> is octal 222.
\<close>

definition SPECIAL_BITS :: int where "SPECIAL_BITS = 3584"
definition WRITE_BITS :: int where "WRITE_BITS = 146"

definition sanitise_mode :: "int \<Rightarrow> bool \<Rightarrow> bool \<Rightarrow> int" where
  "sanitise_mode md strip_special strip_write =
     (let m1 = (if strip_special then md AND NOT SPECIAL_BITS else md);
          m2 = (if strip_write then m1 AND NOT WRITE_BITS else m1)
      in m2)"

definition sanitise_ownership :: "('fs, 'r) env \<Rightarrow> int \<Rightarrow> int \<Rightarrow> bool \<Rightarrow> int \<times> int" where
  "sanitise_ownership env u g preserve =
     (if preserve then (u, g) else (getuid env, getgid env))"

definition sanitise_mtime :: "('fs, 'r) env \<Rightarrow> int \<Rightarrow> bool \<Rightarrow> int" where
  "sanitise_mtime env mt clamp =
     (if \<not> clamp then mt
      else if mt < 0 \<or> mt > 2 ^ 32 - 1 then now env
      else mt)"

section \<open>Phase C, the Streamer: \<open>_streamer.py\<close>\<close>

text \<open>
  The \<open>ExtractionMonitor\<close>. Its methods mutate the object and may raise, so each
  returns the outcome together with the monitor as the call leaves it. The ratio is a
  Python float: the division of two integers is \<open>truediv\<close> of the environment, which
  raises \<open>ZeroDivisionError\<close> on a zero divisor, and the comparison is \<open>fgt\<close>. A
  quotient beyond the range of floats (Python's \<open>OverflowError\<close>) is not modelled.
\<close>

record 'r monitor =
  max_file_size :: int
  max_total_size :: int
  max_ratio :: 'r
  archive_size :: int
  member_bytes :: int
  total_bytes :: int

definition py_truediv :: "('fs, 'r) env \<Rightarrow> int \<Rightarrow> int \<Rightarrow> exc + 'r" where
  "py_truediv env a b = (if b = 0 then Inl ZeroDivisionError else Inr (truediv env a b))"

definition reset_member :: "'r monitor \<Rightarrow> 'r monitor" where
  "reset_member m = m\<lparr>member_bytes := 0\<rparr>"

definition check_ratio :: "('fs, 'r) env \<Rightarrow> 'r monitor \<Rightarrow> exc + unit" where
  "check_ratio env m =
     (if archive_size m \<le> 0 then Inr ()
      else (case py_truediv env (total_bytes m) (archive_size m) of
              Inl e \<Rightarrow> Inl e
            | Inr ratio \<Rightarrow>
                if fgt env ratio (max_ratio m) then Inl CompressionRatioError else Inr ()))"

definition account :: "('fs, 'r) env \<Rightarrow> 'r monitor \<Rightarrow> int \<Rightarrow> (exc + unit) \<times> 'r monitor" where
  "account env m n =
     (let m1 = m\<lparr>member_bytes := member_bytes m + n\<rparr>;
          m2 = m1\<lparr>total_bytes := total_bytes m1 + n\<rparr>
      in
      if member_bytes m2 > max_file_size m2 then (Inl FileSizeExceededError, m2)
      else if total_bytes m2 > max_total_size m2 then (Inl TotalSizeExceededError, m2)
      else (check_ratio env m2, m2))"

text \<open>
  \<open>extract_member_streaming\<close>. \<open>copy_chunks\<close> is the \<open>while True\<close> loop: an empty chunk
  ends it, each other chunk is written and then accounted. \<open>stream_body\<close> is the body
  of the \<open>try\<close>; the closing of the output file at the end of the \<open>with\<close> runs
  whether the loop raised or not, and its own \<open>OSError\<close> replaces the loop's
  exception. The two \<open>except\<close> clauses both unlink the temporary file, ignoring an
  \<open>OSError\<close> of the unlink, and differ in what they raise.
\<close>

definition SAFETAR_TMP :: pystr where
  "SAFETAR_TMP = ascii ''.safetar_tmp_''"

definition temp_path_of :: "('fs, 'r) env \<Rightarrow> 'fs \<Rightarrow> path \<Rightarrow> path" where
  "temp_path_of env fs dest_path = dest_path @ SAFETAR_TMP @ rand_tag env fs"

fun copy_chunks ::
  "('fs, 'r) env \<Rightarrow> path \<Rightarrow> bytes list \<Rightarrow> exc option \<Rightarrow> 'r monitor \<Rightarrow> 'fs world
     \<Rightarrow> (exc + unit) \<times> 'r monitor \<times> 'fs world" where
  "copy_chunks env temp_path [] final m w =
     (case final of None \<Rightarrow> (Inr (), m, w) | Some e \<Rightarrow> (Inl e, m, w))"
| "copy_chunks env temp_path (chunk # rest) final m w =
     (if chunk = [] then (Inr (), m, w)
      else
        let (ok, w1) = do_call env (Write temp_path chunk) w in
        if \<not> ok then (Inl OSError, m, w1)
        else
          let (r, m1) = account env m (int (length chunk)) in
          (case r of
             Inl e \<Rightarrow> (Inl e, m1, w1)
           | Inr _ \<Rightarrow> copy_chunks env temp_path rest final m1 w1))"

definition stream_body ::
  "('fs, 'r) env \<Rightarrow> tarinfo \<Rightarrow> path \<Rightarrow> path \<Rightarrow> 'r monitor \<Rightarrow> 'fs world
     \<Rightarrow> (exc + unit) \<times> 'r monitor \<times> 'fs world" where
  "stream_body env info dest_path temp_path m w =
     (let (ok, w1) = do_call env (Mkdir (path_parent temp_path)) w in
      if \<not> ok then (Inl OSError, m, w1)
      else
        (case content info of
           ExtractRaises e \<Rightarrow> (Inl e, m, w1)
         | NoStream \<Rightarrow>
             let (ok, w2) = do_call env (Touch temp_path) w1 in
             if \<not> ok then (Inl OSError, m, w2)
             else
               let (ok, w3) = do_call env (Rename temp_path dest_path) w2 in
               if \<not> ok then (Inl OSError, m, w3) else (Inr (), m, w3)
         | Stream chunks final \<Rightarrow>
             let (ok, w2) = do_call env (OpenWb temp_path) w1 in
             if \<not> ok then (Inl OSError, m, w2)
             else
               let (r, m1, w3) = copy_chunks env temp_path chunks final m w2;
                   (ok, w4) = do_call env (Close temp_path) w3
               in
               if \<not> ok then (Inl OSError, m1, w4)
               else
                 (case r of
                    Inl e \<Rightarrow> (Inl e, m1, w4)
                  | Inr _ \<Rightarrow>
                      let (ok, w5) = do_call env (Rename temp_path dest_path) w4 in
                      if \<not> ok then (Inl OSError, m1, w5) else (Inr (), m1, w5))))"

definition extract_member_streaming ::
  "('fs, 'r) env \<Rightarrow> tarinfo \<Rightarrow> path \<Rightarrow> 'r monitor \<Rightarrow> 'fs world
     \<Rightarrow> (exc + unit) \<times> 'r monitor \<times> 'fs world" where
  "extract_member_streaming env info dest_path monitor w =
     (let m0 = reset_member monitor in
      if path_parts dest_path = [] then (Inl ValueError, m0, w)
      else
        let temp_path = temp_path_of env (fsys w) dest_path;
            (r, m1, w1) = stream_body env info dest_path temp_path m0 w
        in
        (case r of
           Inr u \<Rightarrow> (Inr u, m1, w1)
         | Inl e \<Rightarrow>
             let (ok, w2) = do_call env (Unlink temp_path) w1 in
             if e = TarError \<or> e = EOFError then (Inl MalformedArchiveError, m1, w2)
             else (Inl e, m1, w2)))"

section \<open>Phase A, the Guard, continued: the pre-scan\<close>

text \<open>
  \<open>pre_scan_file_count\<close>. The archive as the TAR reader presents it: \<open>tarfile.open\<close>
  may raise; each call of \<open>tf.next()\<close> gives a header or raises, and leaves the file
  object at some offset; after the last entry \<open>next()\<close> returns \<open>None\<close>; leaving the
  \<open>with\<close> block may itself raise, and that exception then has the one raised in the
  block, if any, as its \<open>__context__\<close>.
\<close>

datatype 'a next_result = Header 'a | NextRaises exc

record 'a tar_stream =
  open_raises :: "exc option"
  entries :: "('a next_result \<times> nat) list"
  exit_raises :: "exc option"

fun count_headers ::
  "('a next_result \<times> nat) list \<Rightarrow> int \<Rightarrow> int \<Rightarrow> nat \<Rightarrow> (exc + unit) \<times> nat" where
  "count_headers [] count max_files pos = (Inr (), pos)"
| "count_headers ((member, p) # rest) count max_files pos =
     (case member of
        NextRaises e \<Rightarrow> (Inl e, p)
      | Header h \<Rightarrow>
          let count' = count + 1 in
          if count' > max_files then (Inl FileCountExceededError, p)
          else count_headers rest count' max_files p)"

text \<open>The \<open>with\<close> statement: the outcome, the \<open>__context__\<close> of a raised exception, the offset.\<close>

definition scan_with ::
  "'a tar_stream \<Rightarrow> int \<Rightarrow> nat \<Rightarrow> (exc + unit) \<times> exc option \<times> nat" where
  "scan_with stream max_files pos =
     (case open_raises stream of
        Some e \<Rightarrow> (Inl e, None, pos)
      | None \<Rightarrow>
          let (r, p) = count_headers (entries stream) 0 max_files pos in
          (case exit_raises stream of
             None \<Rightarrow> (r, None, p)
           | Some x \<Rightarrow>
               (case r of
                  Inl e \<Rightarrow> (Inl x, Some e, p)
                | Inr _ \<Rightarrow> (Inl x, None, p))))"

definition pre_scan_file_count ::
  "'a tar_stream \<Rightarrow> int \<Rightarrow> nat \<Rightarrow> (exc + unit) \<times> nat" where
  "pre_scan_file_count stream max_files pos =
     (let (r, ctx, p) = scan_with stream max_files pos;
          outcome =
            (case r of
               Inr u \<Rightarrow> Inr u
             | Inl e \<Rightarrow>
                 if e = TarError \<or> e = EOFError \<or> e = OSError then
                   (if ctx = Some FileCountExceededError then Inl FileCountExceededError
                    else Inl MalformedArchiveError)
                 else Inl e)
      in (outcome, 0))"

section \<open>The orchestrator: \<open>_core.py\<close>\<close>

text \<open>
  The fields of a \<open>SafeTarFile\<close> that extraction reads (\<open>self._max_file_size\<close> is
  \<open>stf_max_file_size\<close>, and so on). \<open>stf_on_security_event\<close> tells whether a callback
  is configured. \<open>stf_getmembers\<close> and \<open>stf_getmember\<close> are the methods of the wrapped
  \<open>TarFile\<close>: \<open>getmembers\<close> reads the archive and may raise; \<open>getmember\<close> raises
  \<open>KeyError\<close> where \<open>stf_getmember\<close> is \<open>None\<close>.
\<close>

record 'r safetarfile =
  stf_max_file_size :: int
  stf_max_total_size :: int
  stf_max_ratio :: 'r
  stf_archive_size :: int
  stf_symlink_policy :: SymlinkPolicy
  stf_hardlink_policy :: HardlinkPolicy
  stf_sparse_policy :: SparsePolicy
  stf_strip_special_bits :: bool
  stf_strip_write_bits :: bool
  stf_preserve_ownership :: bool
  stf_clamp_timestamps :: bool
  stf_on_security_event :: bool
  stf_getmembers :: "exc + tarinfo list"
  stf_getmember :: "pystr \<Rightarrow> tarinfo option"

definition isdir :: "tarinfo \<Rightarrow> bool" where "isdir info = (tar_type info = DIRTYPE)"
definition islnk :: "tarinfo \<Rightarrow> bool" where "islnk info = (tar_type info = LNKTYPE)"
definition issym :: "tarinfo \<Rightarrow> bool" where "issym info = (tar_type info = SYMTYPE)"

definition event_type_for :: "tarinfo \<Rightarrow> pystr" where
  "event_type_for info =
     (if issym info then ascii ''symlink_violation''
      else if islnk info then ascii ''hardlink_violation''
      else if isdir info then ascii ''directory_violation''
      else ascii ''security_violation'')"

text \<open>\<open>_fire_event\<close>: an exception of the callback is logged and swallowed.\<close>

definition fire_event ::
  "'r safetarfile \<Rightarrow> ('fs, 'r) env \<Rightarrow> tarinfo \<Rightarrow> 'fs world \<Rightarrow> 'fs world" where
  "fire_event self env info w =
     (if \<not> stf_on_security_event self then w
      else snd (do_call env (Callback (event_type_for info)) w))"

text \<open>\<open>_apply_metadata\<close>: every \<open>OSError\<close> is suppressed, so it never raises.\<close>

definition apply_metadata ::
  "'r safetarfile \<Rightarrow> ('fs, 'r) env \<Rightarrow> tarinfo \<Rightarrow> path \<Rightarrow> 'fs world \<Rightarrow> 'fs world" where
  "apply_metadata self env info dest_path w =
     (let w1 = (if stf_preserve_ownership self then
                  (let (u, g) = sanitise_ownership env (uid info) (gid info) True
                   in snd (do_call env (Chown dest_path u g) w))
                else w);
          w2 = (case mode info of
                  None \<Rightarrow> w1
                | Some md \<Rightarrow>
                    snd (do_call env
                      (Chmod dest_path
                         (sanitise_mode md (stf_strip_special_bits self) (stf_strip_write_bits self)))
                      w1))
      in snd (do_call env
           (Utime dest_path (sanitise_mtime env (mtime info) (stf_clamp_timestamps self))) w2))"

text \<open>
  The mutable objects \<open>extractall\<close> shares with \<open>_extract_one\<close>: the monitor, the two
  queues, the set of extracted paths, and the world.
\<close>

record ('fs, 'r) xstate =
  mon :: "'r monitor"
  deferred_symlinks :: "(path \<times> pystr) list"
  deferred_dirs :: "(tarinfo \<times> path) list"
  extracted_paths :: "path set"
  world :: "'fs world"

definition extract_one_inner ::
  "'r safetarfile \<Rightarrow> ('fs, 'r) env \<Rightarrow> tarinfo \<Rightarrow> path \<Rightarrow> ('fs, 'r) xstate
     \<Rightarrow> (exc + unit) \<times> ('fs, 'r) xstate" where
  "extract_one_inner self env info base_dir s =
     (case validate_entry_type info (stf_symlink_policy self) (stf_hardlink_policy self)
             (stf_sparse_policy self) of
        Inl e \<Rightarrow> (Inl e, s)
      | Inr disposition \<Rightarrow>
     if disposition = Skip then (Inr (), s)
     else
     (case validate_filename env info of
        Inl e \<Rightarrow> (Inl e, s)
      | Inr eff_name \<Rightarrow>
     (case validate_pax_path info of
        Inl e \<Rightarrow> (Inl e, s)
      | Inr pax_path \<Rightarrow>
     (case resolve_member_path env (fsys (world s)) base_dir eff_name of
        Inl e \<Rightarrow> (Inl e, s)
      | Inr dest_path \<Rightarrow>
     (case (case pax_path of
              None \<Rightarrow> Inr dest_path
            | Some pp \<Rightarrow>
                if pp \<noteq> eff_name then resolve_member_path env (fsys (world s)) base_dir pp
                else Inr dest_path) of
        Inl e \<Rightarrow> (Inl e, s)
      | Inr _ \<Rightarrow>
     if disposition = DeferSymlink then
       (Inr (), s\<lparr>deferred_symlinks := deferred_symlinks s @ [(dest_path, linkname info)]\<rparr>)
     else if isdir info then
       (let (ok, w1) = do_call env (Mkdir dest_path) (world s) in
        if \<not> ok then (Inl OSError, s\<lparr>world := w1\<rparr>)
        else (Inr (), s\<lparr>world := w1,
                          deferred_dirs := deferred_dirs s @ [(info, dest_path)],
                          extracted_paths := insert dest_path (extracted_paths s)\<rparr>))
     else if islnk info then
       (case verify_hardlink_target env (fsys (world s)) base_dir dest_path (linkname info)
               (extracted_paths s) of
          Inl e \<Rightarrow> (Inl e, s)
        | Inr target_path \<Rightarrow>
            let (ok, w1) = do_call env (Mkdir (path_parent dest_path)) (world s) in
            if \<not> ok then (Inl OSError, s\<lparr>world := w1\<rparr>)
            else
              let (ok, w2) = do_call env (Link target_path dest_path) w1 in
              if \<not> ok then (Inl OSError, s\<lparr>world := w2\<rparr>)
              else (Inr (), s\<lparr>world := w2,
                                extracted_paths := insert dest_path (extracted_paths s)\<rparr>))
     else
       (let (r, m1, w1) = extract_member_streaming env info dest_path (mon s) (world s) in
        case r of
          Inl e \<Rightarrow> (Inl e, s\<lparr>mon := m1, world := w1\<rparr>)
        | Inr _ \<Rightarrow>
            (Inr (), s\<lparr>mon := m1,
                        world := apply_metadata self env info dest_path w1,
                        extracted_paths := insert dest_path (extracted_paths s)\<rparr>)))))))"

definition extract_one ::
  "'r safetarfile \<Rightarrow> ('fs, 'r) env \<Rightarrow> tarinfo \<Rightarrow> path \<Rightarrow> ('fs, 'r) xstate
     \<Rightarrow> (exc + unit) \<times> ('fs, 'r) xstate" where
  "extract_one self env info base_dir s =
     (let (r, s1) = extract_one_inner self env info base_dir s in
      case r of
        Inr u \<Rightarrow> (Inr u, s1)
      | Inl e \<Rightarrow>
          if is_SafetarError e then (Inl e, s1\<lparr>world := fire_event self env info (world s1)\<rparr>)
          else (Inl e, s1))"

text \<open>The three loops of \<open>extractall\<close>; each stops at the first exception.\<close>

fun extract_loop ::
  "'r safetarfile \<Rightarrow> ('fs, 'r) env \<Rightarrow> path \<Rightarrow> tarinfo list \<Rightarrow> ('fs, 'r) xstate
     \<Rightarrow> (exc + unit) \<times> ('fs, 'r) xstate" where
  "extract_loop self env base_dir [] s = (Inr (), s)"
| "extract_loop self env base_dir (info # infos) s =
     (let (r, s1) = extract_one self env info base_dir s in
      case r of
        Inl e \<Rightarrow> (Inl e, s1)
      | Inr _ \<Rightarrow> extract_loop self env base_dir infos s1)"

definition MAX_FOLLOW :: nat where "MAX_FOLLOW = 10"

fun symlink_loop ::
  "('fs, 'r) env \<Rightarrow> path \<Rightarrow> (path \<times> pystr) list \<Rightarrow> 'fs world \<Rightarrow> (exc + unit) \<times> 'fs world" where
  "symlink_loop env base_dir [] w = (Inr (), w)"
| "symlink_loop env base_dir ((sym_path, sym_target) # rest) w =
     (case verify_symlink_chain env (fsys w) base_dir sym_path sym_target MAX_FOLLOW of
        Inl e \<Rightarrow> (Inl e, w)
      | Inr _ \<Rightarrow>
          let (ok, w1) = do_call env (Mkdir (path_parent sym_path)) w in
          if \<not> ok then (Inl OSError, w1)
          else
            let (ok, w2) = do_call env (Symlink sym_target sym_path) w1 in
            if \<not> ok then (Inl OSError, w2)
            else symlink_loop env base_dir rest w2)"

fun dirs_loop ::
  "'r safetarfile \<Rightarrow> ('fs, 'r) env \<Rightarrow> (tarinfo \<times> path) list \<Rightarrow> 'fs world \<Rightarrow> 'fs world" where
  "dirs_loop self env [] w = w"
| "dirs_loop self env ((dir_info, dir_path) # rest) w =
     dirs_loop self env rest (apply_metadata self env dir_info dir_path w)"

text \<open>The resolution of the \<open>members\<close> argument: names are looked up, headers are taken as given.\<close>

fun resolve_members ::
  "'r safetarfile \<Rightarrow> (pystr + tarinfo) list \<Rightarrow> exc + tarinfo list" where
  "resolve_members self [] = Inr []"
| "resolve_members self (m # ms) =
     (case (case m of
              Inl nm \<Rightarrow> (case stf_getmember self nm of None \<Rightarrow> Inl KeyError | Some i \<Rightarrow> Inr i)
            | Inr i \<Rightarrow> Inr i) of
        Inl e \<Rightarrow> Inl e
      | Inr i \<Rightarrow>
          (case resolve_members self ms of
             Inl e \<Rightarrow> Inl e
           | Inr infos \<Rightarrow> Inr (i # infos)))"

definition new_monitor :: "'r safetarfile \<Rightarrow> 'r monitor" where
  "new_monitor self =
     \<lparr> max_file_size = stf_max_file_size self,
       max_total_size = stf_max_total_size self,
       max_ratio = stf_max_ratio self,
       archive_size = stf_archive_size self,
       member_bytes = 0,
       total_bytes = 0 \<rparr>"

definition initial_state :: "'r safetarfile \<Rightarrow> 'fs world \<Rightarrow> ('fs, 'r) xstate" where
  "initial_state self w =
     \<lparr> mon = new_monitor self, deferred_symlinks = [], deferred_dirs = [],
       extracted_paths = {}, world = w \<rparr>"

definition extractall ::
  "'r safetarfile \<Rightarrow> ('fs, 'r) env \<Rightarrow> path option \<Rightarrow> (pystr + tarinfo) list option
     \<Rightarrow> 'fs world \<Rightarrow> (exc + unit) \<times> 'fs world" where
  "extractall self env path_arg members w =
     (case path_arg of
        None \<Rightarrow> (Inl TypeError, w)
      | Some p \<Rightarrow>
     (case resolve env (fsys w) p of
        Inl e \<Rightarrow> (Inl e, w)
      | Inr base_dir \<Rightarrow>
     (let (ok, w1) = do_call env (Mkdir base_dir) w in
      if \<not> ok then (Inl OSError, w1)
      else
     (case (case members of
              None \<Rightarrow> stf_getmembers self
            | Some ms \<Rightarrow> resolve_members self ms) of
        Inl e \<Rightarrow> (Inl e, w1)
      | Inr infos \<Rightarrow>
     (let (r1, s1) = extract_loop self env base_dir infos (initial_state self w1) in
      case r1 of
        Inl e \<Rightarrow> (Inl e, world s1)
      | Inr _ \<Rightarrow>
     (let (r2, w2) = symlink_loop env base_dir (deferred_symlinks s1) (world s1) in
      case r2 of
        Inl e \<Rightarrow> (Inl e, w2)
      | Inr _ \<Rightarrow> (Inr (), dirs_loop self env (deferred_dirs s1) w2)))))))"

section \<open>A reference environment\<close>

text \<open>
  A small environment to run the model on: names are ASCII (so NFC changes nothing),
  the filesystem is the list of the paths that exist, without symbolic links (so a path
  resolves to itself), floats are real numbers, and the calls in \<open>fails\<close> raise
  \<open>OSError\<close>. The process runs with real user 1000 and effective user 0.
\<close>

fun ref_apply :: "os_op \<Rightarrow> path list \<Rightarrow> path list" where
  "ref_apply (Mkdir p) fs = p # fs"
| "ref_apply (Link t p) fs = p # fs"
| "ref_apply (Symlink t p) fs = p # fs"
| "ref_apply (Touch p) fs = p # fs"
| "ref_apply (OpenWb p) fs = p # fs"
| "ref_apply (Rename a b) fs = b # removeAll a fs"
| "ref_apply (Unlink p) fs = removeAll p fs"
| "ref_apply _ fs = fs"

definition ref_env :: "(os_op \<Rightarrow> bool) \<Rightarrow> (path list, real) env" where
  "ref_env fails =
     \<lparr> nfc = (\<lambda>s. s),
       isalpha = (\<lambda>c. (65 \<le> c \<and> c \<le> 90) \<or> (97 \<le> c \<and> c \<le> 122)),
       isspace = (\<lambda>c. c = 32 \<or> (9 \<le> c \<and> c \<le> 13)),
       getuid = 1000, getgid = 1000, geteuid = 0, getegid = 0,
       now = 1700000000,
       rand_tag = (\<lambda>fs. ascii ''4242_000007''),
       truediv = (\<lambda>a b. real_of_int a / real_of_int b),
       fgt = (\<lambda>x y. x > y),
       resolve = (\<lambda>fs p. Inr p),
       path_exists = (\<lambda>fs p. p \<in> set fs),
       is_symlink = (\<lambda>fs p. False),
       readlink = (\<lambda>fs p. None),
       os_call = (\<lambda>fs c. if fails c then (False, fs) else (True, ref_apply c fs)) \<rparr>"

abbreviation no_faults :: "os_op \<Rightarrow> bool" where
  "no_faults \<equiv> (\<lambda>c. False)"

text \<open>A monitor and a header to run the model on.\<close>

definition example_monitor :: "real monitor" where
  "example_monitor = \<lparr> max_file_size = 100, max_total_size = 1000, max_ratio = 5,
      archive_size = 0, member_bytes = 0, total_bytes = 0 \<rparr>"

definition example_info :: tarinfo where
  "example_info = \<lparr> name = ascii ''a.txt'', tar_type = REGTYPE, linkname = [], sparse = None,
      pax_headers = [], uid = 0, gid = 0, mode = Some 420, mtime = 0,
      content = Stream [''hello''] None \<rparr>"

text \<open>
  A single ordinary path segment: not empty, not a dot or a double dot, and free of
  slashes, backslashes and NUL.
\<close>

definition is_segment :: "pystr \<Rightarrow> bool" where
  "is_segment s = (s \<noteq> [] \<and> s \<noteq> [DOT] \<and> s \<noteq> [DOT, DOT]
      \<and> SLASH \<notin> set s \<and> BACKSLASH \<notin> set s \<and> NUL \<notin> set s)"

section \<open>Notions used in the statements\<close>

text \<open>
  The exception classes the handler of \<open>pre_scan_file_count\<close> catches, and a run of
  headers as the entries of a stream.
\<close>

definition is_reader_error :: "exc \<Rightarrow> bool" where
  "is_reader_error e = (e = TarError \<or> e = EOFError \<or> e = OSError)"

definition headers :: "('a \<times> nat) list \<Rightarrow> ('a next_result \<times> nat) list" where
  "headers hs = map (\<lambda>(h, p). (Header h, p)) hs"

text \<open>Three headers, then a reader error; leaving the \<open>with\<close> block raises \<open>OSError\<close>.\<close>

definition example_stream :: "nat tar_stream" where
  "example_stream =
     \<lparr> open_raises = None,
       entries = headers [(1, 512), (2, 1024), (3, 1536)] @ [(NextRaises TarError, 2048)],
       exit_raises = Some OSError \<rparr>"

text \<open>
  A compressed archive whose stream is corrupt after two headers: the third call of
  \<open>next()\<close> raises \<open>lzma.LZMAError\<close> out of the decompressor.
\<close>

definition corrupt_xz_stream :: "nat tar_stream" where
  "corrupt_xz_stream =
     \<lparr> open_raises = None,
       entries = headers [(1, 512), (2, 1024)] @ [(NextRaises LZMAError, 1536)],
       exit_raises = None \<rparr>"

text \<open>The calls of the Streamer that name nothing but the temporary file and its directory.\<close>

fun temp_only_op :: "path \<Rightarrow> os_op \<Rightarrow> bool" where
  "temp_only_op t (Mkdir p) = (p = path_parent t)"
| "temp_only_op t (Touch p) = (p = t)"
| "temp_only_op t (OpenWb p) = (p = t)"
| "temp_only_op t (Write p b) = (p = t)"
| "temp_only_op t (Close p) = (p = t)"
| "temp_only_op t (Unlink p) = (p = t)"
| "temp_only_op t _ = False"

text \<open>What the model asks of the operating system: a successful unlink removes the path.\<close>

definition unlink_removes :: "('fs, 'r) env \<Rightarrow> bool" where
  "unlink_removes env =
     (\<forall>fs p. fst (os_call env fs (Unlink p)) \<longrightarrow> \<not> path_exists env (snd (os_call env fs (Unlink p))) p)"

text \<open>
  Two sets of failing calls for the reference environment: every write and every unlink
  fails; every write fails. The empty world has no file and no call made.
\<close>

fun io_faults :: "os_op \<Rightarrow> bool" where
  "io_faults (Write p b) = True"
| "io_faults (Unlink p) = True"
| "io_faults _ = False"

fun write_faults :: "os_op \<Rightarrow> bool" where
  "write_faults (Write p b) = True"
| "write_faults _ = False"

definition empty_world :: "path list world" where
  "empty_world = \<lparr> fsys = [], trace = [] \<rparr>"

text \<open>Kinds of calls.\<close>

fun is_symlink_op :: "os_op \<Rightarrow> bool" where
  "is_symlink_op (Symlink tg p) = True"
| "is_symlink_op _ = False"

fun is_mkdir_op :: "os_op \<Rightarrow> bool" where
  "is_mkdir_op (Mkdir p) = True"
| "is_mkdir_op _ = False"

fun is_metadata_op :: "os_op \<Rightarrow> bool" where
  "is_metadata_op (Chown p u g) = True"
| "is_metadata_op (Chmod p m) = True"
| "is_metadata_op (Utime p t) = True"
| "is_metadata_op _ = False"

fun is_callback_op :: "os_op \<Rightarrow> bool" where
  "is_callback_op (Callback e) = True"
| "is_callback_op _ = False"

text \<open>
  \<open>dest_op d t c\<close>: the call \<open>c\<close> writes at the destination \<open>d\<close>, at its parent
  directory, or at the temporary file \<open>t\<close> beside it and nowhere else.
\<close>

fun dest_op :: "path \<Rightarrow> path \<Rightarrow> os_op \<Rightarrow> bool" where
  "dest_op d t (Mkdir p) = (p = d \<or> p = path_parent d \<or> p = path_parent t)"
| "dest_op d t (Link tg p) = (p = d)"
| "dest_op d t (Symlink tg p) = (p = d)"
| "dest_op d t (Touch p) = (p = t)"
| "dest_op d t (OpenWb p) = (p = t)"
| "dest_op d t (Write p b) = (p = t)"
| "dest_op d t (Close p) = (p = t)"
| "dest_op d t (Rename a b) = (a = t \<and> b = d)"
| "dest_op d t (Unlink p) = (p = t)"
| "dest_op d t (Chown p u g) = (p = d)"
| "dest_op d t (Chmod p m) = (p = d)"
| "dest_op d t (Utime p m) = (p = d)"
| "dest_op d t (Callback e) = False"

text \<open>The path whose ownership, permissions or times a call sets.\<close>

fun metadata_path :: "os_op \<Rightarrow> path option" where
  "metadata_path (Chown p u g) = Some p"
| "metadata_path (Chmod p m) = Some p"
| "metadata_path (Utime p m) = Some p"
| "metadata_path _ = None"

text \<open>
  The iterations of the loop over the members, read off \<open>extract_loop\<close>: for each
  member processed, its header, the filesystem state in which \<open>_extract_one\<close> was
  entered, and the calls that \<open>_extract_one\<close> made. The list ends with the member at
  which the loop stopped.
\<close>

fun member_steps ::
  "'r safetarfile \<Rightarrow> ('fs, 'r) env \<Rightarrow> path \<Rightarrow> tarinfo list \<Rightarrow> ('fs, 'r) xstate
     \<Rightarrow> (tarinfo \<times> 'fs \<times> (os_op \<times> bool) list) list" where
  "member_steps self env base_dir [] s = []"
| "member_steps self env base_dir (info # infos) s =
     (let (r, s1) = extract_one self env info base_dir s;
          calls = drop (length (trace (world s))) (trace (world s1))
      in (info, fsys (world s), calls) #
           (case r of
              Inl e \<Rightarrow> []
            | Inr _ \<Rightarrow> member_steps self env base_dir infos s1))"

text \<open>The disposition the Guard gives a header under the policies of the archive handle.\<close>

definition disposition_of :: "'r safetarfile \<Rightarrow> tarinfo \<Rightarrow> exc + disposition" where
  "disposition_of self info =
     validate_entry_type info (stf_symlink_policy self) (stf_hardlink_policy self)
       (stf_sparse_policy self)"

text \<open>The list of headers \<open>extractall\<close> iterates over.\<close>

definition members_of :: "'r safetarfile \<Rightarrow> (pystr + tarinfo) list option \<Rightarrow> exc + tarinfo list" where
  "members_of self members =
     (case members of None \<Rightarrow> stf_getmembers self | Some ms \<Rightarrow> resolve_members self ms)"

text \<open>
  An archive handle with a directory, a file in it and a symlink to the file, extracted
  with symlinks resolved internally and hardlinks allowed.
\<close>

definition example_stf :: "real safetarfile" where
  "example_stf =
     \<lparr> stf_max_file_size = 100, stf_max_total_size = 1000, stf_max_ratio = 200,
       stf_archive_size = 1024,
       stf_symlink_policy = SYMLINK_RESOLVE_INTERNAL,
       stf_hardlink_policy = HARDLINK_INTERNAL,
       stf_sparse_policy = SPARSE_REJECT,
       stf_strip_special_bits = True, stf_strip_write_bits = False,
       stf_preserve_ownership = False, stf_clamp_timestamps = True,
       stf_on_security_event = True,
       stf_getmembers = Inr
         [example_info\<lparr>name := ascii ''d'', tar_type := DIRTYPE, mode := Some 2541\<rparr>,
          example_info\<lparr>name := ascii ''d/a.txt''\<rparr>,
          example_info\<lparr>name := ascii ''d/link'', tar_type := SYMTYPE, linkname := ascii ''a.txt''\<rparr>],
       stf_getmember = (\<lambda>nm. None) \<rparr>"




section \<open>Path resolution rejects unsafe names\<close>

lemma clean_parts_dotdot:
  "[DOT, DOT] \<in> set parts \<Longrightarrow> clean_parts parts acc = Inl (UnsafeEntryError PathTraversal)"
  by (induction parts arbitrary: acc) auto

text \<open>
  Claim C1. For every base directory (a path whose own resolution succeeds) and every
  member name whose NFC-normalised form, with backslashes turned into slashes,
  has a \<open>..\<close> segment, or begins with a slash, or begins with a letter, a colon and a
  slash, \<open>resolve_member_path\<close> raises \<open>UnsafeEntryError\<close>. A \<open>..\<close> segment is
  rejected wherever it stands: it is never cancelled against a segment before it.
\<close>

theorem resolve_member_path_rejects_unsafe:
  assumes base: "resolve env fs base_dir = Inr base"
    and nrm: "nrm = str_replace BACKSLASH SLASH (nfc env member_name)"
    and unsafe: "[DOT, DOT] \<in> set (str_split SLASH nrm)
        \<or> startswith nrm [SLASH]
        \<or> (length nrm \<ge> 3 \<and> isalpha env (nrm ! 0) \<and> nrm ! 1 = COLON \<and> nrm ! 2 = SLASH)"
  shows "is_UnsafeEntryError (resolve_member_path env fs base_dir member_name)"
proof (cases "startswith nrm [SLASH]
      \<or> (length nrm \<ge> 3 \<and> isalpha env (nrm ! 0) \<and> nrm ! 1 = COLON \<and> nrm ! 2 = SLASH)")
  case True
  then show ?thesis
    using base nrm by (auto simp: resolve_member_path_def Let_def)
next
  case False
  with unsafe have "[DOT, DOT] \<in> set (str_split SLASH nrm)" by blast
  then have "clean_parts (str_split SLASH nrm) [] = Inl (UnsafeEntryError PathTraversal)"
    by (rule clean_parts_dotdot)
  then show ?thesis
    using base nrm by (auto simp: resolve_member_path_def Let_def)
qed

theorem resolve_member_path_rejects_unsafe_witness:
  "resolve (ref_env no_faults) [] (ascii ''/out'') = Inr (ascii ''/out'')
   \<and> [DOT, DOT] \<in> set (str_split SLASH (str_replace BACKSLASH SLASH
         (nfc (ref_env no_faults) (ascii ''a/../b''))))
   \<and> is_UnsafeEntryError
         (resolve_member_path (ref_env no_faults) [] (ascii ''/out'') (ascii ''a/../b''))"
proof -
  have b: "resolve (ref_env no_faults) [] (ascii ''/out'') = Inr (ascii ''/out'')"
    by (simp add: ref_env_def)
  have u: "[DOT, DOT] \<in> set (str_split SLASH (str_replace BACKSLASH SLASH
         (nfc (ref_env no_faults) (ascii ''a/../b''))))"
    by (simp add: ref_env_def ascii_def str_replace_def)
  show ?thesis
    using b u resolve_member_path_rejects_unsafe [OF b refl disjI1, OF u] by simp
qed

lemma str_split_no_sep: "sep \<notin> set s \<Longrightarrow> str_split sep s = [s]"
  by (induction s) auto

lemma str_replace_absent: "old \<notin> set s \<Longrightarrow> str_replace old new s = s"
  by (induction s) (auto simp: str_replace_def)

lemma segment_parts: "is_segment s \<Longrightarrow> path_parts s = [s]"
  by (simp add: path_parts_def is_segment_def str_split_no_sep)

lemma segment_root: "is_segment s \<Longrightarrow> path_root s = []"
  by (cases s) (auto simp: path_root_def is_segment_def startswith_def)

lemma joinpath_segment:
  "is_segment s \<Longrightarrow> joinpath a s = path_str (path_root a) (path_parts a @ [s])"
  by (simp add: joinpath_def segment_parts segment_root)

lemma joinpath_root_segment:
  assumes "is_segment d" "is_segment s"
  shows "joinpath (SLASH # d) s = SLASH # d @ SLASH # s"
proof -
  have r: "path_root (SLASH # d) = [SLASH]"
    using assms(1) by (cases d) (auto simp: path_root_def is_segment_def startswith_def)
  have p: "path_parts (SLASH # d) = [d]"
    using assms(1) by (simp add: path_parts_def is_segment_def str_split_no_sep)
  show ?thesis
    using assms(2) by (simp add: joinpath_segment r p path_str_def)
qed

text \<open>
  Claim C10. The length limit of \<open>resolve_member_path\<close> bounds the composed path, base
  directory included, not the member name alone: a name that is one ordinary segment of
  at most 4096 characters passes the Guard's \<open>validate_filename\<close>, and
  \<open>resolve_member_path\<close> still raises \<open>UnsafeEntryError\<close> for its length as soon as
  the base joined with the name is longer than 4096 characters. The witness has a name
  of 100 characters under a base of 4001.
\<close>

theorem length_limit_on_composed_path:
  assumes base: "resolve env fs base_dir = Inr base"
    and nfc: "nfc env nm = nm"
    and seg: "is_segment nm"
    and nonblank: "str_strip env nm \<noteq> []"
    and short: "length nm \<le> MAX_PATH"
    and long: "length (joinpath base nm) > MAX_PATH"
  shows "validate_filename env (info\<lparr>name := nm\<rparr>) = Inr nm
     \<and> resolve_member_path env fs base_dir nm = Inl (UnsafeEntryError PathTooLong)"
proof -
  have guard: "validate_filename env (info\<lparr>name := nm\<rparr>) = Inr nm"
    using seg nonblank short
    by (simp add: validate_filename_def effective_name_def is_segment_def)
  have rep: "str_replace BACKSLASH SLASH nm = nm"
    using seg by (simp add: is_segment_def str_replace_absent)
  have split: "str_split SLASH nm = [nm]"
    using seg by (simp add: is_segment_def str_split_no_sep)
  have notabs: "\<not> startswith nm [SLASH]"
    using seg by (cases nm) (auto simp: is_segment_def startswith_def)
  have nodrive: "\<not> (length nm \<ge> 3 \<and> nm ! 1 = COLON \<and> nm ! 2 = SLASH \<and> isalpha env (nm ! 0))"
  proof
    assume a: "length nm \<ge> 3 \<and> nm ! 1 = COLON \<and> nm ! 2 = SLASH \<and> isalpha env (nm ! 0)"
    then have "nm ! 2 \<in> set nm" by (intro nth_mem) simp
    with a seg show False by (simp add: is_segment_def)
  qed
  have clean: "clean_parts [nm] [] = Inr [nm]"
    using seg by (simp add: is_segment_def)
  have nonul: "NUL \<notin> set nm"
    using seg by (simp add: is_segment_def)
  have "resolve_member_path env fs base_dir nm = Inl (UnsafeEntryError PathTooLong)"
    using base nfc rep split notabs nodrive clean nonul long
    by (simp add: resolve_member_path_def Let_def)
  with guard show ?thesis by simp
qed

lemma replicate_segment: "c \<noteq> SLASH \<Longrightarrow> c \<noteq> BACKSLASH \<Longrightarrow> c \<noteq> NUL \<Longrightarrow> c \<noteq> DOT \<Longrightarrow> n > 0
   \<Longrightarrow> is_segment (replicate n c)"
  by (cases n) (auto simp: is_segment_def)
lemma replicate_strip: "\<not> isspace env c \<Longrightarrow> n > 0 \<Longrightarrow> str_strip env (replicate n c) \<noteq> []"
  by (cases n) (auto simp: str_strip_def)

theorem length_limit_on_composed_path_witness:
  "resolve (ref_env no_faults) [] (SLASH # replicate 4000 98) = Inr (SLASH # replicate 4000 98)
   \<and> length (replicate 100 (97::nat)) = 100
   \<and> length (joinpath (SLASH # replicate 4000 98) (replicate 100 97)) = 4102
   \<and> validate_filename (ref_env no_faults)
        \<lparr> name = replicate 100 97, tar_type = REGTYPE, linkname = [], sparse = None,
          pax_headers = [], uid = 0, gid = 0, mode = None, mtime = 0, content = NoStream \<rparr>
       = Inr (replicate 100 97)
   \<and> resolve_member_path (ref_env no_faults) [] (SLASH # replicate 4000 98) (replicate 100 97)
       = Inl (UnsafeEntryError PathTooLong)"
proof -
  let ?e = "ref_env no_faults"
  let ?b = "SLASH # replicate 4000 (98::nat)"
  let ?n = "replicate 100 (97::nat)"
  have s1: "is_segment ?n" by (rule replicate_segment) simp_all
  have s2: "is_segment (replicate 4000 (98::nat))" by (rule replicate_segment) simp_all
  have j: "joinpath ?b ?n = ?b @ SLASH # ?n"
    using joinpath_root_segment [OF s2 s1] by simp
  have len: "length (joinpath ?b ?n) = 4102" unfolding j by simp
  have r: "resolve ?e [] ?b = Inr ?b" by (simp add: ref_env_def)
  have nf: "nfc ?e ?n = ?n" by (simp add: ref_env_def)
  have nb: "str_strip ?e ?n \<noteq> []" by (rule replicate_strip) (simp_all add: ref_env_def)
  have sh: "length ?n \<le> MAX_PATH" by (simp add: MAX_PATH_def)
  have lg: "length (joinpath ?b ?n) > MAX_PATH" unfolding len by (simp add: MAX_PATH_def)
  show ?thesis
    using length_limit_on_composed_path [OF r nf s1 nb sh lg,
      of "\<lparr> name = [], tar_type = REGTYPE, linkname = [], sparse = None,
          pax_headers = [], uid = 0, gid = 0, mode = None, mtime = 0, content = NoStream \<rparr>"]
      r len by simp
qed

section \<open>The entry-type whitelist\<close>

lemma is_sparse_iff:
  "is_sparse info \<longleftrightarrow>
     (\<exists>l. sparse info = Some l \<and> l \<noteq> [])
     \<or> tar_type info = GNUTYPE_SPARSE
     \<or> ascii ''GNU.sparse.major'' \<in> fst ` set (pax_headers info)
     \<or> ascii ''GNU.sparse.size'' \<in> fst ` set (pax_headers info)"
  by (auto simp: is_sparse_def map_of_eq_None_iff split: option.splits)

lemma type_codes_distinct:
  "distinct [REGTYPE, AREGTYPE, CONTTYPE, DIRTYPE, SYMTYPE, LNKTYPE, CHRTYPE, BLKTYPE, FIFOTYPE,
             GNUTYPE_SPARSE]"
  by (simp add: tar_type_defs)

text \<open>
  Claim C7. \<open>validate_entry_type\<close> tests sparseness first: the \<open>sparse\<close> attribute, the
  GNU type byte \<open>S\<close>, or one of the PAX keys \<open>GNU.sparse.major\<close> and
  \<open>GNU.sparse.size\<close>. A sparse entry raises \<open>UnsafeEntryTypeError\<close> under \<open>REJECT\<close> and
  is extracted under \<open>MATERIALISE\<close>. Any other entry is extracted when it is a regular
  file or a directory, follows the symlink policy when it is a symlink (\<open>REJECT\<close>
  raises \<open>UnsafeEntryError\<close>, \<open>IGNORE\<close> skips, \<open>RESOLVE_INTERNAL\<close> defers), follows the
  hardlink policy when it is a hardlink (\<open>REJECT\<close> raises \<open>UnsafeEntryError\<close>,
  \<open>INTERNAL\<close> extracts), raises \<open>UnsafeEntryTypeError\<close> with its label when it is a
  character device, a block device or a FIFO, and raises \<open>UnsafeEntryTypeError\<close> for
  every other type code.
\<close>

theorem validate_entry_type_table:
  "(is_sparse info \<longleftrightarrow>
       (\<exists>l. sparse info = Some l \<and> l \<noteq> [])
       \<or> tar_type info = GNUTYPE_SPARSE
       \<or> ascii ''GNU.sparse.major'' \<in> fst ` set (pax_headers info)
       \<or> ascii ''GNU.sparse.size'' \<in> fst ` set (pax_headers info))
   \<and> (is_sparse info \<longrightarrow>
         validate_entry_type info symlink_policy hardlink_policy sparse_policy
           = (case sparse_policy of
                SPARSE_REJECT \<Rightarrow> Inl (UnsafeEntryTypeError SparseRejected)
              | SPARSE_MATERIALISE \<Rightarrow> Inr Extract))
   \<and> (\<not> is_sparse info \<longrightarrow>
         validate_entry_type info symlink_policy hardlink_policy sparse_policy
           = (if tar_type info \<in> {REGTYPE, AREGTYPE, CONTTYPE, DIRTYPE} then Inr Extract
              else if tar_type info = SYMTYPE then
                (case symlink_policy of
                   SYMLINK_REJECT \<Rightarrow> Inl (UnsafeEntryError SymlinkRejected)
                 | SYMLINK_IGNORE \<Rightarrow> Inr Skip
                 | SYMLINK_RESOLVE_INTERNAL \<Rightarrow> Inr DeferSymlink)
              else if tar_type info = LNKTYPE then
                (case hardlink_policy of
                   HARDLINK_REJECT \<Rightarrow> Inl (UnsafeEntryError HardlinkRejected)
                 | HARDLINK_INTERNAL \<Rightarrow> Inr Extract)
              else if tar_type info = CHRTYPE then
                Inl (UnsafeEntryTypeError (ForbiddenType (ascii ''character device'')))
              else if tar_type info = BLKTYPE then
                Inl (UnsafeEntryTypeError (ForbiddenType (ascii ''block device'')))
              else if tar_type info = FIFOTYPE then
                Inl (UnsafeEntryTypeError (ForbiddenType (ascii ''FIFO'')))
              else Inl (UnsafeEntryTypeError UnrecognisedType)))"
proof (intro conjI impI)
  show "is_sparse info \<longleftrightarrow>
       (\<exists>l. sparse info = Some l \<and> l \<noteq> [])
       \<or> tar_type info = GNUTYPE_SPARSE
       \<or> ascii ''GNU.sparse.major'' \<in> fst ` set (pax_headers info)
       \<or> ascii ''GNU.sparse.size'' \<in> fst ` set (pax_headers info)"
    by (rule is_sparse_iff)
next
  assume "is_sparse info"
  then show "validate_entry_type info symlink_policy hardlink_policy sparse_policy
           = (case sparse_policy of
                SPARSE_REJECT \<Rightarrow> Inl (UnsafeEntryTypeError SparseRejected)
              | SPARSE_MATERIALISE \<Rightarrow> Inr Extract)"
    by (cases sparse_policy) (simp_all add: validate_entry_type_def)
next
  assume ns: "\<not> is_sparse info"
  note d = type_codes_distinct
  show "validate_entry_type info symlink_policy hardlink_policy sparse_policy
           = (if tar_type info \<in> {REGTYPE, AREGTYPE, CONTTYPE, DIRTYPE} then Inr Extract
              else if tar_type info = SYMTYPE then
                (case symlink_policy of
                   SYMLINK_REJECT \<Rightarrow> Inl (UnsafeEntryError SymlinkRejected)
                 | SYMLINK_IGNORE \<Rightarrow> Inr Skip
                 | SYMLINK_RESOLVE_INTERNAL \<Rightarrow> Inr DeferSymlink)
              else if tar_type info = LNKTYPE then
                (case hardlink_policy of
                   HARDLINK_REJECT \<Rightarrow> Inl (UnsafeEntryError HardlinkRejected)
                 | HARDLINK_INTERNAL \<Rightarrow> Inr Extract)
              else if tar_type info = CHRTYPE then
                Inl (UnsafeEntryTypeError (ForbiddenType (ascii ''character device'')))
              else if tar_type info = BLKTYPE then
                Inl (UnsafeEntryTypeError (ForbiddenType (ascii ''block device'')))
              else if tar_type info = FIFOTYPE then
                Inl (UnsafeEntryTypeError (ForbiddenType (ascii ''FIFO'')))
              else Inl (UnsafeEntryTypeError UnrecognisedType))"
    using ns d by (auto simp: validate_entry_type_def type_set_defs type_names_get_def)
qed

theorem validate_entry_type_table_witness:
  "is_sparse (example_info\<lparr>sparse := Some [(0, 512)]\<rparr>)
   \<and> validate_entry_type (example_info\<lparr>sparse := Some [(0, 512)]\<rparr>)
        SYMLINK_REJECT HARDLINK_REJECT SPARSE_REJECT = Inl (UnsafeEntryTypeError SparseRejected)
   \<and> is_sparse (example_info\<lparr>pax_headers := [(ascii ''GNU.sparse.size'', ascii ''9'')]\<rparr>)
   \<and> validate_entry_type (example_info\<lparr>pax_headers := [(ascii ''GNU.sparse.size'', ascii ''9'')]\<rparr>)
        SYMLINK_REJECT HARDLINK_REJECT SPARSE_MATERIALISE = Inr Extract
   \<and> \<not> is_sparse example_info
   \<and> validate_entry_type example_info SYMLINK_REJECT HARDLINK_REJECT SPARSE_REJECT = Inr Extract
   \<and> \<not> is_sparse (example_info\<lparr>tar_type := SYMTYPE\<rparr>)
   \<and> validate_entry_type (example_info\<lparr>tar_type := SYMTYPE\<rparr>)
        SYMLINK_IGNORE HARDLINK_REJECT SPARSE_REJECT = Inr Skip
   \<and> validate_entry_type (example_info\<lparr>tar_type := LNKTYPE\<rparr>)
        SYMLINK_IGNORE HARDLINK_REJECT SPARSE_REJECT = Inl (UnsafeEntryError HardlinkRejected)
   \<and> validate_entry_type (example_info\<lparr>tar_type := FIFOTYPE\<rparr>)
        SYMLINK_IGNORE HARDLINK_REJECT SPARSE_REJECT
       = Inl (UnsafeEntryTypeError (ForbiddenType (ascii ''FIFO'')))
   \<and> validate_entry_type (example_info\<lparr>tar_type := CHR ''Z''\<rparr>)
        SYMLINK_IGNORE HARDLINK_REJECT SPARSE_REJECT = Inl (UnsafeEntryTypeError UnrecognisedType)"
proof -
  have s1: "is_sparse (example_info\<lparr>sparse := Some [(0, 512)]\<rparr>)"
    by (simp add: is_sparse_def)
  have s2: "is_sparse (example_info\<lparr>pax_headers := [(ascii ''GNU.sparse.size'', ascii ''9'')]\<rparr>)"
    by (simp add: is_sparse_def example_info_def tar_type_defs ascii_def)
  have n: "\<not> is_sparse (example_info\<lparr>tar_type := t\<rparr>)" if "t \<noteq> GNUTYPE_SPARSE" for t
    using that by (simp add: is_sparse_def example_info_def)
  have n0: "\<not> is_sparse example_info"
    by (simp add: is_sparse_def example_info_def tar_type_defs)
  note t = validate_entry_type_table
  show ?thesis
    using s1 s2 n0 n [of SYMTYPE] n [of LNKTYPE] n [of FIFOTYPE] n [of "CHR ''Z''"]
      t [of "example_info\<lparr>sparse := Some [(0, 512)]\<rparr>" SYMLINK_REJECT HARDLINK_REJECT SPARSE_REJECT]
      t [of "example_info\<lparr>pax_headers := [(ascii ''GNU.sparse.size'', ascii ''9'')]\<rparr>"
            SYMLINK_REJECT HARDLINK_REJECT SPARSE_MATERIALISE]
      t [of example_info SYMLINK_REJECT HARDLINK_REJECT SPARSE_REJECT]
      t [of "example_info\<lparr>tar_type := SYMTYPE\<rparr>" SYMLINK_IGNORE HARDLINK_REJECT SPARSE_REJECT]
      t [of "example_info\<lparr>tar_type := LNKTYPE\<rparr>" SYMLINK_IGNORE HARDLINK_REJECT SPARSE_REJECT]
      t [of "example_info\<lparr>tar_type := FIFOTYPE\<rparr>" SYMLINK_IGNORE HARDLINK_REJECT SPARSE_REJECT]
      t [of "example_info\<lparr>tar_type := CHR ''Z''\<rparr>" SYMLINK_IGNORE HARDLINK_REJECT SPARSE_REJECT]
    by (simp add: tar_type_defs example_info_def)
qed

section \<open>The extraction monitor\<close>

lemma account_state:
  "snd (account env m n) = m\<lparr>member_bytes := member_bytes m + n, total_bytes := total_bytes m + n\<rparr>"
  by (simp add: account_def Let_def)

lemma account_run_total:
  "total_bytes (foldl (\<lambda>m n. snd (account env m n)) m ns) = total_bytes m + sum_list ns"
  by (induction ns arbitrary: m) (simp_all add: account_state)

lemma account_run_member:
  "member_bytes (foldl (\<lambda>m n. snd (account env m n)) m ns) = member_bytes m + sum_list ns"
  by (induction ns arbitrary: m) (simp_all add: account_state)

lemma check_ratio_cases:
  "check_ratio env m =
     (if archive_size m > 0 \<and> fgt env (truediv env (total_bytes m) (archive_size m)) (max_ratio m)
      then Inl CompressionRatioError else Inr ())"
  by (simp add: check_ratio_def py_truediv_def)

text \<open>
  Claim C3. Whatever calls came before, \<open>account(n)\<close> adds \<open>n\<close> to the per-member and
  to the total counter, also when it raises. It raises \<open>FileSizeExceededError\<close> when
  the per-member counter exceeds \<open>max_file_size\<close>; otherwise \<open>TotalSizeExceededError\<close>
  when the total exceeds \<open>max_total_size\<close>; otherwise \<open>CompressionRatioError\<close> when
  \<open>archive_size\<close> is positive and the total divided by it exceeds \<open>max_ratio\<close>;
  otherwise it returns. The division never raises \<open>ZeroDivisionError\<close>, and with
  \<open>archive_size\<close> zero or negative no ratio error is raised. Over any sequence of
  calls the counters grow by the sum of the arguments.
\<close>

theorem account_enforces_limits:
  "snd (account env m n)
     = m\<lparr>member_bytes := member_bytes m + n, total_bytes := total_bytes m + n\<rparr>
   \<and> fst (account env m n)
     = (if member_bytes m + n > max_file_size m then Inl FileSizeExceededError
        else if total_bytes m + n > max_total_size m then Inl TotalSizeExceededError
        else if archive_size m > 0
                \<and> fgt env (truediv env (total_bytes m + n) (archive_size m)) (max_ratio m)
          then Inl CompressionRatioError
        else Inr ())
   \<and> fst (account env m n) \<noteq> Inl ZeroDivisionError
   \<and> (archive_size m \<le> 0 \<longrightarrow> fst (account env m n) \<noteq> Inl CompressionRatioError)
   \<and> total_bytes (foldl (\<lambda>m n. snd (account env m n)) m ns) = total_bytes m + sum_list ns
   \<and> member_bytes (foldl (\<lambda>m n. snd (account env m n)) m ns) = member_bytes m + sum_list ns"
proof -
  have res: "fst (account env m n)
     = (if member_bytes m + n > max_file_size m then Inl FileSizeExceededError
        else if total_bytes m + n > max_total_size m then Inl TotalSizeExceededError
        else if archive_size m > 0
                \<and> fgt env (truediv env (total_bytes m + n) (archive_size m)) (max_ratio m)
          then Inl CompressionRatioError
        else Inr ())"
    by (simp add: account_def Let_def check_ratio_cases)
  have nz: "fst (account env m n) \<noteq> Inl ZeroDivisionError"
    unfolding res by simp
  have guard: "archive_size m \<le> 0 \<longrightarrow> fst (account env m n) \<noteq> Inl CompressionRatioError"
    unfolding res by simp
  show ?thesis
    using account_state res nz guard account_run_total account_run_member by blast
qed

theorem account_enforces_limits_witness:
  "archive_size example_monitor \<le> 0
   \<and> fst (account (ref_env no_faults) example_monitor 64) = Inr ()
   \<and> fst (account (ref_env no_faults) (example_monitor\<lparr>archive_size := 10\<rparr>) 64)
       = Inl CompressionRatioError
   \<and> fst (account (ref_env no_faults) example_monitor 101) = Inl FileSizeExceededError
   \<and> fst (account (ref_env no_faults) (example_monitor\<lparr>total_bytes := 990\<rparr>) 64)
       = Inl TotalSizeExceededError
   \<and> total_bytes (snd (account (ref_env no_faults) example_monitor 101)) = 101"
  using account_enforces_limits [of "ref_env no_faults" example_monitor 64 "[]"]
        account_enforces_limits [of "ref_env no_faults" "example_monitor\<lparr>archive_size := 10\<rparr>" 64 "[]"]
        account_enforces_limits [of "ref_env no_faults" example_monitor 101 "[]"]
        account_enforces_limits [of "ref_env no_faults" "example_monitor\<lparr>total_bytes := 990\<rparr>" 64 "[]"]
  by (simp add: example_monitor_def ref_env_def)

section \<open>Ownership\<close>

text \<open>
  Claim C9. With \<open>preserve_ownership=True\<close> the archive's ids are returned unchanged.
  With \<open>preserve_ownership=False\<close> the source returns \<open>os.getuid()\<close> and
  \<open>os.getgid()\<close>, the real ids of the process, where its docstring and the claim say
  the effective ones: in a process whose real user is 1000 and whose effective user is 0
  the result is 1000, not 0.
\<close>

theorem sanitise_ownership_real_ids:
  "sanitise_ownership env u g True = (u, g)
   \<and> sanitise_ownership env u g False = (getuid env, getgid env)
   \<and> sanitise_ownership (ref_env no_faults) 0 0 False = (1000, 1000)
   \<and> (geteuid (ref_env no_faults), getegid (ref_env no_faults)) = (0, 0)"
  by (simp add: sanitise_ownership_def ref_env_def)

section \<open>The file-count pre-scan\<close>

lemma headers_simps [simp]:
  "headers [] = []"
  "headers ((h, p) # hs) = (Header h, p) # headers hs"
  by (simp_all add: headers_def)

lemma count_headers_exceeds:
  "hs \<noteq> [] \<Longrightarrow> count + int (length hs) > max_files \<Longrightarrow> count + int (length hs) - 1 \<le> max_files
   \<Longrightarrow> count_headers (headers hs @ rest) count max_files pos
       = (Inl FileCountExceededError, snd (last hs))"
proof (induction hs arbitrary: count pos)
  case Nil
  then show ?case by simp
next
  case (Cons x hs)
  obtain h p where x: "x = (h, p)" by (cases x)
  show ?case
  proof (cases "hs = []")
    case True
    with Cons.prems x show ?thesis by simp
  next
    case False
    with Cons.prems have "\<not> count + 1 > max_files" by (cases hs) auto
    moreover have "count_headers (headers hs @ rest) (count + 1) max_files p
       = (Inl FileCountExceededError, snd (last hs))"
      using Cons.prems False by (intro Cons.IH) auto
    ultimately show ?thesis using x False by (simp add: Let_def)
  qed
qed

lemma count_headers_raises:
  "count + int (length hs) \<le> max_files
   \<Longrightarrow> count_headers (headers hs @ (NextRaises e, p) # rest) count max_files pos = (Inl e, p)"
proof (induction hs arbitrary: count pos)
  case Nil
  then show ?case by simp
next
  case (Cons x hs)
  obtain h q where x: "x = (h, q)" by (cases x)
  from Cons.prems have "\<not> count + 1 > max_files" by auto
  moreover have "count_headers (headers hs @ (NextRaises e, p) # rest) (count + 1) max_files q
      = (Inl e, p)"
    using Cons.prems by (intro Cons.IH) auto
  ultimately show ?case using x by (simp add: Let_def)
qed

lemma count_headers_ends:
  "count + int (length hs) \<le> max_files
   \<Longrightarrow> fst (count_headers (headers hs) count max_files pos) = Inr ()"
proof (induction hs arbitrary: count pos)
  case Nil
  then show ?case by simp
next
  case (Cons x hs)
  obtain h q where x: "x = (h, q)" by (cases x)
  from Cons.prems have "\<not> count + 1 > max_files" by auto
  moreover have "fst (count_headers (headers hs) (count + 1) max_files q) = Inr ()"
    using Cons.prems by (intro Cons.IH) auto
  ultimately show ?case using x by (simp add: Let_def)
qed

lemma pre_scan_rewinds: "snd (pre_scan_file_count stream max_files pos) = 0"
  by (simp add: pre_scan_file_count_def Let_def split: prod.splits)

text \<open>The outcome of the pre-scan from the outcome of the loop.\<close>

lemma pre_scan_from_loop:
  assumes "open_raises stream = None"
    and "fst (count_headers (entries stream) 0 max_files pos) = r"
  shows "fst (pre_scan_file_count stream max_files pos) =
     (case exit_raises stream of
        None \<Rightarrow>
          (case r of
             Inr u \<Rightarrow> Inr u
           | Inl e \<Rightarrow> if is_reader_error e then Inl MalformedArchiveError else Inl e)
      | Some x \<Rightarrow>
          if is_reader_error x then
            (if r = Inl FileCountExceededError then Inl FileCountExceededError
             else Inl MalformedArchiveError)
          else Inl x)"
  using assms
  by (auto simp: pre_scan_file_count_def scan_with_def Let_def is_reader_error_def
      split: prod.splits option.splits sum.splits)

text \<open>
  What the pre-scan does with the exceptions its handler names. It reads the headers
  one at a time and raises \<open>FileCountExceededError\<close> at the first header that takes
  the count over \<open>max_files\<close>: the file object stands where that header left it,
  whatever follows in the archive. A \<open>TarError\<close>, \<open>EOFError\<close> or \<open>OSError\<close> of the
  reader, at the opening or at a header, becomes \<open>MalformedArchiveError\<close>; but when
  such an error arises on leaving the \<open>with\<close> block while \<open>FileCountExceededError\<close>
  is pending, the pending error is raised. On every path the stream ends at offset 0.
\<close>

lemma pre_scan_file_count_outcomes:
  "snd (pre_scan_file_count stream max_files pos) = 0
   \<and> (open_raises stream = None \<and> entries stream = headers hs @ rest \<and> hs \<noteq> []
        \<and> int (length hs) - 1 \<le> max_files \<and> max_files < int (length hs)
        \<and> (\<forall>x. exit_raises stream = Some x \<longrightarrow> is_reader_error x)
      \<longrightarrow> fst (pre_scan_file_count stream max_files pos) = Inl FileCountExceededError
          \<and> count_headers (entries stream) 0 max_files pos
              = (Inl FileCountExceededError, snd (last hs)))
   \<and> (open_raises stream = Some e \<and> is_reader_error e
      \<longrightarrow> fst (pre_scan_file_count stream max_files pos) = Inl MalformedArchiveError)
   \<and> (open_raises stream = None \<and> entries stream = headers hs @ (NextRaises e, p) # rest
        \<and> int (length hs) \<le> max_files \<and> is_reader_error e
        \<and> (\<forall>x. exit_raises stream = Some x \<longrightarrow> is_reader_error x)
      \<longrightarrow> fst (pre_scan_file_count stream max_files pos) = Inl MalformedArchiveError)
   \<and> (open_raises stream = None \<and> entries stream = headers hs \<and> int (length hs) \<le> max_files
      \<longrightarrow> fst (pre_scan_file_count stream max_files pos)
          = (case exit_raises stream of
               None \<Rightarrow> Inr ()
             | Some x \<Rightarrow> if is_reader_error x then Inl MalformedArchiveError else Inl x))"
proof (intro conjI impI)
  show "snd (pre_scan_file_count stream max_files pos) = 0"
    by (rule pre_scan_rewinds)
next
  assume a: "open_raises stream = None \<and> entries stream = headers hs @ rest \<and> hs \<noteq> []
        \<and> int (length hs) - 1 \<le> max_files \<and> max_files < int (length hs)
        \<and> (\<forall>x. exit_raises stream = Some x \<longrightarrow> is_reader_error x)"
  then have loop: "count_headers (entries stream) 0 max_files pos
      = (Inl FileCountExceededError, snd (last hs))"
    using count_headers_exceeds [where hs = hs and count = 0 and max_files = max_files and rest = rest and pos = pos] by simp
  then show "count_headers (entries stream) 0 max_files pos
      = (Inl FileCountExceededError, snd (last hs))" .
  from loop have "fst (count_headers (entries stream) 0 max_files pos)
      = Inl FileCountExceededError" by simp
  from pre_scan_from_loop [OF _ this] a
  show "fst (pre_scan_file_count stream max_files pos) = Inl FileCountExceededError"
    by (auto simp: is_reader_error_def split: option.splits)
next
  assume "open_raises stream = Some e \<and> is_reader_error e"
  then show "fst (pre_scan_file_count stream max_files pos) = Inl MalformedArchiveError"
    by (auto simp: pre_scan_file_count_def scan_with_def is_reader_error_def)
next
  assume a: "open_raises stream = None \<and> entries stream = headers hs @ (NextRaises e, p) # rest
        \<and> int (length hs) \<le> max_files \<and> is_reader_error e
        \<and> (\<forall>x. exit_raises stream = Some x \<longrightarrow> is_reader_error x)"
  then have "fst (count_headers (entries stream) 0 max_files pos) = Inl e"
    using count_headers_raises [where hs = hs and count = 0 and max_files = max_files and rest = rest and pos = pos and e = e and p = p] by simp
  from pre_scan_from_loop [OF _ this] a
  show "fst (pre_scan_file_count stream max_files pos) = Inl MalformedArchiveError"
    by (auto simp: is_reader_error_def split: option.splits)
next
  assume a: "open_raises stream = None \<and> entries stream = headers hs \<and> int (length hs) \<le> max_files"
  then have "fst (count_headers (entries stream) 0 max_files pos) = Inr ()"
    using count_headers_ends [where hs = hs and count = 0 and max_files = max_files and pos = pos] by simp
  from pre_scan_from_loop [OF _ this] a
  show "fst (pre_scan_file_count stream max_files pos)
          = (case exit_raises stream of
               None \<Rightarrow> Inr ()
             | Some x \<Rightarrow> if is_reader_error x then Inl MalformedArchiveError else Inl x)"
    by (auto split: option.splits)
qed

lemma pre_scan_file_count_outcomes_example:
  "open_raises example_stream = None
   \<and> exit_raises example_stream = Some OSError \<and> is_reader_error OSError
   \<and> pre_scan_file_count example_stream 2 7 = (Inl FileCountExceededError, 0)
   \<and> count_headers (entries example_stream) 0 2 7 = (Inl FileCountExceededError, 1536)
   \<and> pre_scan_file_count example_stream 3 7 = (Inl MalformedArchiveError, 0)
   \<and> pre_scan_file_count (example_stream\<lparr>open_raises := Some EOFError\<rparr>) 2 7
       = (Inl MalformedArchiveError, 0)
   \<and> pre_scan_file_count
        (example_stream\<lparr>entries := headers [(1, 512), (2, 1024)], exit_raises := None\<rparr>) 2 7
       = (Inr (), 0)"
proof -
  note t = pre_scan_file_count_outcomes
  have a: "pre_scan_file_count example_stream 2 7 = (Inl FileCountExceededError, 0)
      \<and> count_headers (entries example_stream) 0 2 7 = (Inl FileCountExceededError, 1536)"
    using t [where stream = example_stream and max_files = 2 and pos = 7
        and hs = "[(1, 512), (2, 1024), (3, 1536)]" and rest = "[(NextRaises TarError, 2048)]"]
    by (simp add: example_stream_def is_reader_error_def prod_eq_iff)
  have b: "pre_scan_file_count example_stream 3 7 = (Inl MalformedArchiveError, 0)"
    using t [where stream = example_stream and max_files = 3 and pos = 7
        and hs = "[(1, 512), (2, 1024), (3, 1536)]" and rest = "[]" and e = TarError and p = 2048]
    by (simp add: example_stream_def is_reader_error_def prod_eq_iff)
  have c: "pre_scan_file_count (example_stream\<lparr>open_raises := Some EOFError\<rparr>) 2 7
       = (Inl MalformedArchiveError, 0)"
    using t [where stream = "example_stream\<lparr>open_raises := Some EOFError\<rparr>"
        and max_files = 2 and pos = 7 and e = EOFError]
    by (simp add: is_reader_error_def prod_eq_iff)
  have d: "pre_scan_file_count
        (example_stream\<lparr>entries := headers [(1, 512), (2, 1024)], exit_raises := None\<rparr>) 2 7
       = (Inr (), 0)"
    using t [where stream = "example_stream\<lparr>entries := headers [(1, 512), (2, 1024)],
          exit_raises := None\<rparr>"
        and max_files = 2 and pos = 7 and hs = "[(1, 512), (2, 1024)]"]
    by (simp add: example_stream_def prod_eq_iff)
  show ?thesis
    using a b c d by (simp add: example_stream_def is_reader_error_def)
qed

text \<open>
  Claim C8. The claim has every structural error of the TAR reader remapped to
  \<open>MalformedArchiveError\<close>. The handler of \<open>pre_scan_file_count\<close> names
  \<open>tarfile.TarError\<close>, \<open>EOFError\<close> and \<open>OSError\<close> only, and the reader of a
  compressed archive also raises \<open>lzma.LZMAError\<close> and \<open>zlib.error\<close> on corrupt data:
  the pre-scan of an archive whose compressed stream is corrupt after two headers, or
  after one, raises the decompressor's exception unchanged, not
  \<open>MalformedArchiveError\<close>. The stream is rewound all the same.
\<close>

theorem pre_scan_decompressor_error_not_remapped:
  "pre_scan_file_count corrupt_xz_stream 10 1536 = (Inl LZMAError, 0)
   \<and> pre_scan_file_count
        (corrupt_xz_stream\<lparr>entries := headers [(1, 512)] @ [(NextRaises ZlibError, 1024)]\<rparr>) 10 1024
       = (Inl ZlibError, 0)"
  by (simp add: pre_scan_file_count_def scan_with_def corrupt_xz_stream_def Let_def)

section \<open>Atomic writes of the Streamer\<close>

lemma do_call_trace:
  "do_call env c w = (ok, w') \<Longrightarrow> trace w' = trace w @ [(c, ok)]"
  by (auto simp: do_call_def Let_def split: prod.splits)

lemma do_call_fsys:
  "do_call env c w = (ok, w') \<Longrightarrow> os_call env (fsys w) c = (ok, fsys w')"
  by (auto simp: do_call_def Let_def split: prod.splits)

lemma copy_chunks_trace:
  "copy_chunks env t chunks final m w = (r, m', w')
   \<Longrightarrow> \<exists>ops. trace w' = trace w @ ops \<and> (\<forall>x \<in> set ops. temp_only_op t (fst x))"
proof (induction chunks arbitrary: m w)
  case Nil
  then show ?case by (auto split: option.splits)
next
  case (Cons chunk rest)
  show ?case
  proof (cases "chunk = []")
    case True
    with Cons.prems show ?thesis by auto
  next
    case False
    obtain ok w1 where c: "do_call env (Write t chunk) w = (ok, w1)" by (cases "do_call env (Write t chunk) w")
    note tr = do_call_trace [OF c]
    show ?thesis
    proof (cases ok)
      case False
      with Cons.prems \<open>chunk \<noteq> []\<close> c have "w' = w1" by simp
      with tr show ?thesis by auto
    next
      case True
      obtain ra m1 where a: "account env m (int (length chunk)) = (ra, m1)"
        by (cases "account env m (int (length chunk))")
      show ?thesis
      proof (cases ra)
        case (Inl e)
        with Cons.prems \<open>chunk \<noteq> []\<close> c True a have "w' = w1" by simp
        with tr show ?thesis by auto
      next
        case (Inr u)
        with Cons.prems \<open>chunk \<noteq> []\<close> c True a
        have "copy_chunks env t rest final m1 w1 = (r, m', w')" by simp
        from Cons.IH [OF this] obtain ops where
          "trace w' = trace w1 @ ops" "\<forall>x \<in> set ops. temp_only_op t (fst x)" by blast
        with tr have "trace w' = trace w @ ((Write t chunk, ok) # ops)"
          "\<forall>x \<in> set ((Write t chunk, ok) # ops). temp_only_op t (fst x)" by auto
        then show ?thesis by blast
      qed
    qed
  qed
qed

lemma stream_body_trace:
  assumes "stream_body env info dest t m w = (r, m', w')"
  shows "\<exists>ops. trace w' = trace w @ ops \<and>
     (case r of
        Inr _ \<Rightarrow> ops \<noteq> [] \<and> last ops = (Rename t dest, True)
                 \<and> (\<forall>x \<in> set (butlast ops). temp_only_op t (fst x))
      | Inl _ \<Rightarrow> (\<forall>x \<in> set ops. temp_only_op t (fst x) \<or> x = (Rename t dest, False)))"
proof -
  obtain ok1 w1 where c1: "do_call env (Mkdir (path_parent t)) w = (ok1, w1)"
    by (cases "do_call env (Mkdir (path_parent t)) w")
  note t1 = do_call_trace [OF c1]
  show ?thesis
  proof (cases ok1)
    case False
    with assms c1 have "r = Inl OSError" "w' = w1" by (simp_all add: stream_body_def)
    with t1 show ?thesis by auto
  next
    case ok1: True
    show ?thesis
    proof (cases "content info")
      case (ExtractRaises e)
      with assms c1 ok1 have "r = Inl e" "w' = w1" by (simp_all add: stream_body_def)
      with t1 show ?thesis by auto
    next
      case NoStream
      obtain ok2 w2 where c2: "do_call env (Touch t) w1 = (ok2, w2)"
        by (cases "do_call env (Touch t) w1")
      note t2 = do_call_trace [OF c2]
      show ?thesis
      proof (cases ok2)
        case False
        with assms c1 ok1 NoStream c2 have "r = Inl OSError" "w' = w2"
          by (simp_all add: stream_body_def)
        with t1 t2 show ?thesis by auto
      next
        case ok2: True
        obtain ok3 w3 where c3: "do_call env (Rename t dest) w2 = (ok3, w3)"
          by (cases "do_call env (Rename t dest) w2")
        note t3 = do_call_trace [OF c3]
        from assms c1 ok1 NoStream c2 ok2 c3
        have r: "r = (if ok3 then Inr () else Inl OSError)" "w' = w3"
          by (simp_all add: stream_body_def split: if_splits)
        have tr: "trace w' = trace w @ [(Mkdir (path_parent t), True), (Touch t, True), (Rename t dest, ok3)]"
          using t1 t2 t3 r ok1 ok2 by simp
        show ?thesis using tr r by (cases ok3) auto
      qed
    next
      case (Stream chunks final)
      obtain ok2 w2 where c2: "do_call env (OpenWb t) w1 = (ok2, w2)"
        by (cases "do_call env (OpenWb t) w1")
      note t2 = do_call_trace [OF c2]
      show ?thesis
      proof (cases ok2)
        case False
        with assms c1 ok1 Stream c2 have "r = Inl OSError" "w' = w2"
          by (simp_all add: stream_body_def)
        with t1 t2 show ?thesis by auto
      next
        case ok2: True
        obtain rc m1 w3 where cc: "copy_chunks env t chunks final m w2 = (rc, m1, w3)"
          by (cases "copy_chunks env t chunks final m w2")
        from copy_chunks_trace [OF cc] obtain cops where
          tc: "trace w3 = trace w2 @ cops" and ac: "\<forall>x \<in> set cops. temp_only_op t (fst x)" by blast
        obtain ok4 w4 where c4: "do_call env (Close t) w3 = (ok4, w4)"
          by (cases "do_call env (Close t) w3")
        note t4 = do_call_trace [OF c4]
        have pre: "trace w4 = trace w @ ((Mkdir (path_parent t), True) # (OpenWb t, True) # cops @ [(Close t, ok4)])"
          using t1 t2 tc t4 ok1 ok2 by simp
        have preall: "\<forall>x \<in> set ((Mkdir (path_parent t), True) # (OpenWb t, True) # cops @ [(Close t, ok4)]).
            temp_only_op t (fst x)"
          using ac by auto
        show ?thesis
        proof (cases "ok4 \<and> (\<exists>u. rc = Inr u)")
          case False
          with assms c1 ok1 Stream c2 ok2 cc c4 have "\<exists>e. r = Inl e" "w' = w4"
            by (auto simp: stream_body_def split: sum.splits if_splits)
          then obtain e where "r = Inl e" "w' = w4" by blast
          with pre preall show ?thesis
            by (intro exI [of _ "(Mkdir (path_parent t), True) # (OpenWb t, True) # cops @ [(Close t, ok4)]"])
               simp
        next
          case True
          obtain ok5 w5 where c5: "do_call env (Rename t dest) w4 = (ok5, w5)"
            by (cases "do_call env (Rename t dest) w4")
          note t5 = do_call_trace [OF c5]
          from True assms c1 ok1 Stream c2 ok2 cc c4 c5
          have r: "r = (if ok5 then Inr () else Inl OSError)" "w' = w5"
            by (auto simp: stream_body_def split: if_splits)
          let ?ops = "((Mkdir (path_parent t), True) # (OpenWb t, True) # cops @ [(Close t, ok4)])"
          have tr: "trace w' = trace w @ (?ops @ [(Rename t dest, ok5)])"
            using pre t5 r by simp
          show ?thesis
          proof (cases ok5)
            case True
            with r have "r = Inr ()" by simp
            moreover have "last (?ops @ [(Rename t dest, ok5)]) = (Rename t dest, True)"
              using True by simp
            moreover have "butlast (?ops @ [(Rename t dest, ok5)]) = ?ops"
              by (simp only: butlast_snoc)
            ultimately show ?thesis using tr preall
              by (intro exI [of _ "?ops @ [(Rename t dest, ok5)]"]) (simp del: butlast.simps)
          next
            case False
            with r have "r = Inl OSError" by simp
            moreover have "\<forall>x \<in> set (?ops @ [(Rename t dest, ok5)]).
                temp_only_op t (fst x) \<or> x = (Rename t dest, False)"
              using preall False by auto
            ultimately show ?thesis using tr
              by (intro exI [of _ "?ops @ [(Rename t dest, ok5)]"]) simp
          qed
        qed
      qed
    qed
  qed
qed

lemma unlink_removes_ref_env: "unlink_removes (ref_env fails)"
  by (simp add: unlink_removes_def ref_env_def)

text \<open>
  The unlink of the temporary file is best effort: the source wraps it in
  \<open>contextlib.suppress(OSError)\<close>. When a write raises \<open>OSError\<close> and the unlink raises
  too, the error propagates and the temporary file is still there.
\<close>

theorem streaming_temp_file_remains:
  "fst (extract_member_streaming (ref_env io_faults) example_info (ascii ''/out/a.txt'')
          example_monitor empty_world) = Inl OSError
   \<and> path_exists (ref_env io_faults)
        (fsys (snd (snd (extract_member_streaming (ref_env io_faults) example_info
           (ascii ''/out/a.txt'') example_monitor empty_world))))
        (ascii ''/out/a.txt.safetar_tmp_4242_000007'')"
  by (simp add: extract_member_streaming_def stream_body_def temp_path_of_def SAFETAR_TMP_def
      reset_member_def example_info_def example_monitor_def empty_world_def do_call_def
      ref_env_def ascii_def path_parts_def Let_def)

text \<open>
  Claim C6, amended. For a destination with a file name, every failure of
  \<open>extract_member_streaming\<close> ends with the attempt to unlink the temporary file, the
  path of the destination followed by \<open>.safetar_tmp_\<close> and the tag; the error raised is
  the one of the \<open>try\<close> block, with \<open>TarError\<close> and \<open>EOFError\<close> turned into
  \<open>MalformedArchiveError\<close>. Where the unlink itself succeeds (and a successful unlink
  removes the path), no temporary file remains. Every call made names only the
  temporary file or its directory, except the final rename onto the destination, which
  has failed in a failing run and is the last call of a successful one.
\<close>

theorem streaming_failure_cleanup:
  assumes run: "extract_member_streaming env info dest_path monitor w = (r, m', w')"
    and named: "path_parts dest_path \<noteq> []"
    and t: "t = temp_path_of env (fsys w) dest_path"
  shows "case r of
      Inl e \<Rightarrow>
        (\<exists>ops ok e0.
           trace w' = trace w @ ops @ [(Unlink t, ok)]
         \<and> (\<forall>x \<in> set ops. temp_only_op t (fst x) \<or> x = (Rename t dest_path, False))
         \<and> (unlink_removes env \<and> ok \<longrightarrow> \<not> path_exists env (fsys w') t)
         \<and> fst (stream_body env info dest_path t (reset_member monitor) w) = Inl e0
         \<and> e = (if e0 = TarError \<or> e0 = EOFError then MalformedArchiveError else e0))
    | Inr u \<Rightarrow>
        (\<exists>ops.
           trace w' = trace w @ ops @ [(Rename t dest_path, True)]
         \<and> (\<forall>x \<in> set ops. temp_only_op t (fst x)))"
proof -
  obtain rb mb wb where b: "stream_body env info dest_path t (reset_member monitor) w = (rb, mb, wb)"
    by (cases "stream_body env info dest_path t (reset_member monitor) w")
  from stream_body_trace [OF b] obtain bops where
    tb: "trace wb = trace w @ bops" and
    cb: "case rb of
        Inr _ \<Rightarrow> bops \<noteq> [] \<and> last bops = (Rename t dest_path, True)
                 \<and> (\<forall>x \<in> set (butlast bops). temp_only_op t (fst x))
      | Inl _ \<Rightarrow> (\<forall>x \<in> set bops. temp_only_op t (fst x) \<or> x = (Rename t dest_path, False))"
    by blast
  show ?thesis
  proof (cases rb)
    case (Inr u)
    with run named t b have r: "r = Inr u" "w' = wb"
      by (simp_all add: extract_member_streaming_def Let_def)
    from cb Inr have ne: "bops \<noteq> []" and l: "last bops = (Rename t dest_path, True)"
      and a: "\<forall>x \<in> set (butlast bops). temp_only_op t (fst x)" by simp_all
    from ne l have "bops = butlast bops @ [(Rename t dest_path, True)]"
      by (metis append_butlast_last_id)
    with tb r have "trace w' = trace w @ butlast bops @ [(Rename t dest_path, True)]" by simp
    with a r show ?thesis by auto
  next
    case (Inl e0)
    obtain ok w2 where u: "do_call env (Unlink t) wb = (ok, w2)"
      by (cases "do_call env (Unlink t) wb")
    from run named t b Inl u
    have r: "r = Inl (if e0 = TarError \<or> e0 = EOFError then MalformedArchiveError else e0)"
      and w: "w' = w2"
      by (auto simp: extract_member_streaming_def Let_def split: if_splits)
    have tr: "trace w' = trace w @ bops @ [(Unlink t, ok)]"
      using do_call_trace [OF u] tb w by simp
    have ops: "\<forall>x \<in> set bops. temp_only_op t (fst x) \<or> x = (Rename t dest_path, False)"
      using cb Inl by simp
    have gone: "unlink_removes env \<and> ok \<longrightarrow> \<not> path_exists env (fsys w') t"
    proof
      assume h: "unlink_removes env \<and> ok"
      from do_call_fsys [OF u] have "os_call env (fsys wb) (Unlink t) = (ok, fsys w2)" .
      with h w show "\<not> path_exists env (fsys w') t"
        unfolding unlink_removes_def by (metis fst_conv snd_conv)
    qed
    have e0: "fst (stream_body env info dest_path t (reset_member monitor) w) = Inl e0"
      using b Inl by simp
    show ?thesis
      unfolding r using tr ops gone e0 by (simp only: sum.case) blast
  qed
qed

theorem streaming_failure_cleanup_witness:
  "path_parts (ascii ''/out/a.txt'') \<noteq> []
   \<and> fst (extract_member_streaming (ref_env write_faults) example_info (ascii ''/out/a.txt'')
          example_monitor empty_world) = Inl OSError
   \<and> unlink_removes (ref_env write_faults)
   \<and> \<not> path_exists (ref_env write_faults)
        (fsys (snd (snd (extract_member_streaming (ref_env write_faults) example_info
           (ascii ''/out/a.txt'') example_monitor empty_world))))
        (temp_path_of (ref_env write_faults) (fsys empty_world) (ascii ''/out/a.txt''))"
proof -
  let ?env = "ref_env write_faults"
  let ?dest = "ascii ''/out/a.txt''"
  let ?t = "temp_path_of ?env (fsys empty_world) ?dest"
  let ?run = "extract_member_streaming ?env example_info ?dest example_monitor empty_world"
  have named: "path_parts ?dest \<noteq> []"
    by (simp add: path_parts_def ascii_def)
  have res: "fst ?run = Inl OSError" and lst: "last (trace (snd (snd ?run))) = (Unlink ?t, True)"
    by (simp_all add: extract_member_streaming_def stream_body_def temp_path_of_def SAFETAR_TMP_def
      reset_member_def example_info_def example_monitor_def empty_world_def do_call_def
      ref_env_def ascii_def path_parts_def Let_def)
  obtain m' w' where run: "?run = (Inl OSError, m', w')"
    using res by (cases ?run) auto
  from streaming_failure_cleanup [OF run named refl]
  obtain ops ok where tr: "trace w' = trace empty_world @ ops @ [(Unlink ?t, ok)]"
    and gone: "unlink_removes ?env \<and> ok \<longrightarrow> \<not> path_exists ?env (fsys w') ?t"
    by auto
  from lst run tr have ok by simp
  with gone unlink_removes_ref_env have "\<not> path_exists ?env (fsys w') ?t" by blast
  with named res run unlink_removes_ref_env show ?thesis by simp
qed

section \<open>The steps of the orchestrator\<close>

lemma validate_filename_name: "validate_filename env info = Inr n \<Longrightarrow> n = name info"
  by (auto simp: validate_filename_def effective_name_def Let_def split: if_splits)

lemma disposition_symlink:
  "disposition_of self info = Inr Skip \<or> disposition_of self info = Inr DeferSymlink
   \<Longrightarrow> tar_type info = SYMTYPE"
  by (auto simp: disposition_of_def validate_entry_type_def type_set_defs
      split: if_splits SymlinkPolicy.splits HardlinkPolicy.splits)

lemma extract_one_inner_cases [consumes 1, case_names early deferred dir lnk regular]:
  assumes run: "extract_one_inner self env info base_dir s = (r, s')"
  obtains
    (early) "s' = s" "r = Inr () \<longrightarrow> disposition_of self info = Inr Skip"
  | (deferred) dest where
      "resolve_member_path env (fsys (world s)) base_dir (name info) = Inr dest"
      "r = Inr ()"
      "s' = s\<lparr>deferred_symlinks := deferred_symlinks s @ [(dest, linkname info)]\<rparr>"
      "disposition_of self info = Inr DeferSymlink"
  | (dir) dest ok w1 where
      "resolve_member_path env (fsys (world s)) base_dir (name info) = Inr dest"
      "isdir info"
      "do_call env (Mkdir dest) (world s) = (ok, w1)"
      "r = (if ok then Inr () else Inl OSError)"
      "s' = (if ok then s\<lparr>world := w1,
                          deferred_dirs := deferred_dirs s @ [(info, dest)],
                          extracted_paths := insert dest (extracted_paths s)\<rparr>
             else s\<lparr>world := w1\<rparr>)"
      "disposition_of self info = Inr Extract"
  | (lnk) dest target ok1 w1 ok2 w2 where
      "resolve_member_path env (fsys (world s)) base_dir (name info) = Inr dest"
      "islnk info"
      "verify_hardlink_target env (fsys (world s)) base_dir dest (linkname info)
         (extracted_paths s) = Inr target"
      "do_call env (Mkdir (path_parent dest)) (world s) = (ok1, w1)"
      "do_call env (Link target dest) w1 = (ok2, w2)"
      "r = (if ok1 \<and> ok2 then Inr () else Inl OSError)"
      "s' = (if \<not> ok1 then s\<lparr>world := w1\<rparr>
             else if \<not> ok2 then s\<lparr>world := w2\<rparr>
             else s\<lparr>world := w2, extracted_paths := insert dest (extracted_paths s)\<rparr>)"
      "disposition_of self info = Inr Extract"
  | (regular) dest rr m1 w1 where
      "resolve_member_path env (fsys (world s)) base_dir (name info) = Inr dest"
      "\<not> isdir info"
      "extract_member_streaming env info dest (mon s) (world s) = (rr, m1, w1)"
      "r = rr"
      "s' = (case rr of
               Inl e \<Rightarrow> s\<lparr>mon := m1, world := w1\<rparr>
             | Inr u \<Rightarrow> s\<lparr>mon := m1, world := apply_metadata self env info dest w1,
                           extracted_paths := insert dest (extracted_paths s)\<rparr>)"
      "disposition_of self info = Inr Extract"
proof -
  let ?vt = "validate_entry_type info (stf_symlink_policy self) (stf_hardlink_policy self)
             (stf_sparse_policy self)"
  show ?thesis
  proof (cases ?vt)
    case (Inl e)
    with run have "s' = s" "r = Inl e" by (simp_all add: extract_one_inner_def)
    then show ?thesis by (intro early) simp_all
  next
    case disp: (Inr disposition)
    show ?thesis
    proof (cases "disposition = Skip")
      case True
      with run disp have "s' = s" by (simp add: extract_one_inner_def)
      moreover from disp True have "disposition_of self info = Inr Skip"
        by (simp add: disposition_of_def)
      ultimately show ?thesis by (intro early) simp_all
    next
      case noskip: False
      show ?thesis
      proof (cases "validate_filename env info")
        case (Inl e)
        with run disp noskip have "s' = s" "r = Inl e" by (simp_all add: extract_one_inner_def)
        then show ?thesis by (intro early) simp_all
      next
        case fn: (Inr eff)
        then have eff: "eff = name info" by (rule validate_filename_name)
        show ?thesis
        proof (cases "validate_pax_path info")
          case (Inl e)
          with run disp noskip fn have "s' = s" "r = Inl e"
            by (simp_all add: extract_one_inner_def)
          then show ?thesis by (intro early) simp_all
        next
          case pax: (Inr pax_path)
          show ?thesis
          proof (cases "resolve_member_path env (fsys (world s)) base_dir eff")
            case (Inl e)
            with run disp noskip fn pax have "s' = s" "r = Inl e"
              by (simp_all add: extract_one_inner_def)
            then show ?thesis by (intro early) simp_all
          next
            case dest: (Inr dest)
            let ?px = "(case pax_path of
                None \<Rightarrow> Inr dest
              | Some pp \<Rightarrow>
                  if pp \<noteq> eff then resolve_member_path env (fsys (world s)) base_dir pp
                  else Inr dest)"
            show ?thesis
            proof (cases ?px)
              case (Inl e)
              with run disp noskip fn pax dest have "s' = s" "r = Inl e"
                by (simp_all add: extract_one_inner_def)
              then show ?thesis by (intro early) simp_all
            next
              case px: (Inr d2)
              from run disp noskip fn pax dest px
              have rest: "(r, s') =
                (if disposition = DeferSymlink then
                   (Inr (), s\<lparr>deferred_symlinks := deferred_symlinks s @ [(dest, linkname info)]\<rparr>)
                 else if isdir info then
                   (let (ok, w1) = do_call env (Mkdir dest) (world s) in
                    if \<not> ok then (Inl OSError, s\<lparr>world := w1\<rparr>)
                    else (Inr (), s\<lparr>world := w1,
                                      deferred_dirs := deferred_dirs s @ [(info, dest)],
                                      extracted_paths := insert dest (extracted_paths s)\<rparr>))
                 else if islnk info then
                   (case verify_hardlink_target env (fsys (world s)) base_dir dest (linkname info)
                           (extracted_paths s) of
                      Inl e \<Rightarrow> (Inl e, s)
                    | Inr target_path \<Rightarrow>
                        let (ok, w1) = do_call env (Mkdir (path_parent dest)) (world s) in
                        if \<not> ok then (Inl OSError, s\<lparr>world := w1\<rparr>)
                        else
                          let (ok, w2) = do_call env (Link target_path dest) w1 in
                          if \<not> ok then (Inl OSError, s\<lparr>world := w2\<rparr>)
                          else (Inr (), s\<lparr>world := w2,
                                            extracted_paths := insert dest (extracted_paths s)\<rparr>))
                 else
                   (let (r, m1, w1) = extract_member_streaming env info dest (mon s) (world s) in
                    case r of
                      Inl e \<Rightarrow> (Inl e, s\<lparr>mon := m1, world := w1\<rparr>)
                    | Inr _ \<Rightarrow>
                        (Inr (), s\<lparr>mon := m1,
                                    world := apply_metadata self env info dest w1,
                                    extracted_paths := insert dest (extracted_paths s)\<rparr>)))"
                by (simp add: extract_one_inner_def)
              note d = dest [unfolded eff]
              show ?thesis
              proof (cases "disposition = DeferSymlink")
                case True
                with disp have dd: "disposition_of self info = Inr DeferSymlink"
                  by (simp add: disposition_of_def)
                from rest True show ?thesis by (intro deferred [OF d _ _ dd]) simp_all
              next
                case nodefer: False
                with noskip disp have de: "disposition_of self info = Inr Extract"
                  by (cases disposition) (simp_all add: disposition_of_def)
                show ?thesis
                proof (cases "isdir info")
                  case True
                  obtain ok w1 where c: "do_call env (Mkdir dest) (world s) = (ok, w1)"
                    by (cases "do_call env (Mkdir dest) (world s)")
                  with rest nodefer True show ?thesis
                    by (intro dir [OF d True c _ _ de]) (simp_all split: if_splits)
                next
                  case nodir: False
                  show ?thesis
                  proof (cases "islnk info")
                    case True
                    show ?thesis
                    proof (cases "verify_hardlink_target env (fsys (world s)) base_dir dest
                        (linkname info) (extracted_paths s)")
                      case (Inl e)
                      with rest nodefer nodir True have "s' = s" "r = Inl e" by simp_all
                      then show ?thesis by (intro early) simp_all
                    next
                      case tg: (Inr target)
                      obtain ok1 w1 where c1: "do_call env (Mkdir (path_parent dest)) (world s) = (ok1, w1)"
                        by (cases "do_call env (Mkdir (path_parent dest)) (world s)")
                      obtain ok2 w2 where c2: "do_call env (Link target dest) w1 = (ok2, w2)"
                        by (cases "do_call env (Link target dest) w1")
                      from rest nodefer nodir True tg c1 c2 show ?thesis
                        by (intro lnk [OF d True tg c1 c2 _ _ de]) (auto split: if_splits)
                    qed
                  next
                    case nolnk: False
                    obtain rr m1 w1 where
                      c: "extract_member_streaming env info dest (mon s) (world s) = (rr, m1, w1)"
                      by (cases "extract_member_streaming env info dest (mon s) (world s)")
                    from rest nodefer nodir nolnk c show ?thesis
                      by (intro regular [OF d nodir c _ _ de]) (auto split: sum.splits)
                  qed
                qed
              qed
            qed
          qed
        qed
      qed
    qed
  qed
qed

lemma snd_do_call_trace:
  "trace (snd (do_call env c w)) = trace w @ [(c, fst (do_call env c w))]"
  by (cases "do_call env c w") (simp add: do_call_trace)

lemma temp_only_dest_op: "temp_only_op t c \<Longrightarrow> dest_op d t c \<and> \<not> is_symlink_op c \<and> \<not> is_callback_op c"
  by (cases c) auto

lemma streaming_ops:
  assumes "extract_member_streaming env info dest m w = (r, m', w')"
  shows "\<exists>ops. trace w' = trace w @ ops
     \<and> (\<forall>x \<in> set ops. dest_op dest (temp_path_of env (fsys w) dest) (fst x)
            \<and> \<not> is_symlink_op (fst x) \<and> \<not> is_callback_op (fst x))"
proof (cases "path_parts dest = []")
  case True
  with assms have "w' = w" by (simp add: extract_member_streaming_def Let_def)
  then show ?thesis by simp
next
  case False
  let ?t = "temp_path_of env (fsys w) dest"
  obtain rb mb wb where b: "stream_body env info dest ?t (reset_member m) w = (rb, mb, wb)"
    by (cases "stream_body env info dest ?t (reset_member m) w")
  from stream_body_trace [OF b] obtain bops where
    tb: "trace wb = trace w @ bops" and
    cb: "case rb of
        Inr _ \<Rightarrow> bops \<noteq> [] \<and> last bops = (Rename ?t dest, True)
                 \<and> (\<forall>x \<in> set (butlast bops). temp_only_op ?t (fst x))
      | Inl _ \<Rightarrow> (\<forall>x \<in> set bops. temp_only_op ?t (fst x) \<or> x = (Rename ?t dest, False))"
    by blast
  have good: "\<forall>x \<in> set bops. dest_op dest ?t (fst x) \<and> \<not> is_symlink_op (fst x) \<and> \<not> is_callback_op (fst x)"
  proof (cases rb)
    case (Inl e)
    with cb show ?thesis by (auto dest: temp_only_dest_op)
  next
    case (Inr u)
    with cb have ne: "bops \<noteq> []" and l: "last bops = (Rename ?t dest, True)"
      and a: "\<forall>x \<in> set (butlast bops). temp_only_op ?t (fst x)" by simp_all
    define pre where "pre = butlast bops"
    from ne l have "bops = pre @ [(Rename ?t dest, True)]"
      unfolding pre_def by (metis append_butlast_last_id)
    then have "set bops = set pre \<union> {(Rename ?t dest, True)}"
      by simp
    moreover from a have "\<forall>x \<in> set pre. temp_only_op ?t (fst x)" unfolding pre_def .
    ultimately show ?thesis by (auto dest: temp_only_dest_op)
  qed
  show ?thesis
  proof (cases rb)
    case (Inr u)
    with assms False b have "w' = wb" by (simp add: extract_member_streaming_def Let_def)
    with tb good show ?thesis by auto
  next
    case (Inl e)
    obtain ok w2 where u: "do_call env (Unlink ?t) wb = (ok, w2)"
      by (cases "do_call env (Unlink ?t) wb")
    with assms False b Inl have "w' = w2"
      by (auto simp: extract_member_streaming_def Let_def split: if_splits)
    with do_call_trace [OF u] tb have "trace w' = trace w @ (bops @ [(Unlink ?t, ok)])" by simp
    moreover from good have "\<forall>x \<in> set (bops @ [(Unlink ?t, ok)]).
        dest_op dest ?t (fst x) \<and> \<not> is_symlink_op (fst x) \<and> \<not> is_callback_op (fst x)" by auto
    ultimately show ?thesis by blast
  qed
qed

lemma apply_metadata_ops:
  "\<exists>ops. trace (apply_metadata self env info d w) = trace w @ ops
     \<and> (\<forall>x \<in> set ops. is_metadata_op (fst x) \<and> dest_op d t (fst x))"
proof -
  let ?w1 = "(if stf_preserve_ownership self then
                  (let (u, g) = sanitise_ownership env (uid info) (gid info) True
                   in snd (do_call env (Chown d u g) w))
                else w)"
  let ?w2 = "(case mode info of
                  None \<Rightarrow> ?w1
                | Some md \<Rightarrow>
                    snd (do_call env
                      (Chmod d
                         (sanitise_mode md (stf_strip_special_bits self) (stf_strip_write_bits self)))
                      ?w1))"
  have 1: "\<exists>ops. trace ?w1 = trace w @ ops \<and> (\<forall>x \<in> set ops. is_metadata_op (fst x) \<and> dest_op d t (fst x))"
    by (auto simp: snd_do_call_trace split: prod.splits)
  then obtain o1 where o1: "trace ?w1 = trace w @ o1" "\<forall>x \<in> set o1. is_metadata_op (fst x) \<and> dest_op d t (fst x)"
    by blast
  have 2: "\<exists>ops. trace ?w2 = trace ?w1 @ ops \<and> (\<forall>x \<in> set ops. is_metadata_op (fst x) \<and> dest_op d t (fst x))"
    by (cases "mode info") (auto simp: snd_do_call_trace)
  then obtain o2 where o2: "trace ?w2 = trace ?w1 @ o2" "\<forall>x \<in> set o2. is_metadata_op (fst x) \<and> dest_op d t (fst x)"
    by blast
  let ?c = "Utime d (sanitise_mtime env (mtime info) (stf_clamp_timestamps self))"
  have "apply_metadata self env info d w = snd (do_call env ?c ?w2)"
    by (simp add: apply_metadata_def Let_def)
  then have "trace (apply_metadata self env info d w)
      = trace w @ (o1 @ o2 @ [(?c, fst (do_call env ?c ?w2))])"
    using o1 o2 by (simp add: snd_do_call_trace)
  moreover have "\<forall>x \<in> set (o1 @ o2 @ [(?c, fst (do_call env ?c ?w2))]).
      is_metadata_op (fst x) \<and> dest_op d t (fst x)"
    using o1 o2 by auto
  ultimately show ?thesis by blast
qed

lemma islnk_not_isdir: "islnk info \<Longrightarrow> \<not> isdir info"
  by (simp add: islnk_def isdir_def tar_type_defs)

lemma inner_step:
  assumes run: "extract_one_inner self env info base_dir s = (r, s')"
  shows "s' = s \<or>
    (\<exists>dest. resolve_member_path env (fsys (world s)) base_dir (name info) = Inr dest
       \<and> (\<exists>ops. trace (world s') = trace (world s) @ ops
             \<and> (\<forall>x \<in> set ops. dest_op dest (temp_path_of env (fsys (world s)) dest) (fst x)
                    \<and> \<not> is_symlink_op (fst x) \<and> \<not> is_callback_op (fst x))
             \<and> (isdir info \<longrightarrow> (\<forall>x \<in> set ops. is_mkdir_op (fst x))))
       \<and> (deferred_symlinks s' = deferred_symlinks s
            \<or> deferred_symlinks s' = deferred_symlinks s @ [(dest, linkname info)])
       \<and> (deferred_dirs s' = deferred_dirs s
            \<or> deferred_dirs s' = deferred_dirs s @ [(info, dest)])
       \<and> extracted_paths s' \<subseteq> insert dest (extracted_paths s))"
  using run
proof (cases rule: extract_one_inner_cases)
  case early
  then show ?thesis by simp
next
  case (deferred dest)
  then show ?thesis by (intro disjI2 exI [of _ dest]) auto
next
  case (dir dest ok w1)
  have "trace (world s') = trace (world s) @ [(Mkdir dest, ok)]"
    using dir(3,5) do_call_trace [OF dir(3)] by (cases ok) simp_all
  moreover have "\<forall>x \<in> set [(Mkdir dest, ok)].
      dest_op dest (temp_path_of env (fsys (world s)) dest) (fst x)
      \<and> \<not> is_symlink_op (fst x) \<and> \<not> is_callback_op (fst x)" by simp
  moreover have "\<forall>x \<in> set [(Mkdir dest, ok)]. is_mkdir_op (fst x)" by simp
  ultimately have "\<exists>ops. trace (world s') = trace (world s) @ ops
             \<and> (\<forall>x \<in> set ops. dest_op dest (temp_path_of env (fsys (world s)) dest) (fst x)
                    \<and> \<not> is_symlink_op (fst x) \<and> \<not> is_callback_op (fst x))
             \<and> (isdir info \<longrightarrow> (\<forall>x \<in> set ops. is_mkdir_op (fst x)))" by blast
  moreover have "deferred_symlinks s' = deferred_symlinks s"
    "deferred_dirs s' = deferred_dirs s \<or> deferred_dirs s' = deferred_dirs s @ [(info, dest)]"
    "extracted_paths s' \<subseteq> insert dest (extracted_paths s)"
    using dir(5) by (cases ok; auto)+
  ultimately show ?thesis using dir(1) by (intro disjI2 exI [of _ dest]) blast
next
  case (lnk dest target ok1 w1 ok2 w2)
  let ?ops = "if ok1 then [(Mkdir (path_parent dest), ok1), (Link target dest, ok2)]
              else [(Mkdir (path_parent dest), ok1)]"
  have "trace (world s') = trace (world s) @ ?ops"
    using lnk(7) do_call_trace [OF lnk(4)] do_call_trace [OF lnk(5)] by (cases ok1; cases ok2) simp_all
  moreover have "\<forall>x \<in> set ?ops.
      dest_op dest (temp_path_of env (fsys (world s)) dest) (fst x)
      \<and> \<not> is_symlink_op (fst x) \<and> \<not> is_callback_op (fst x)" by simp
  moreover have "\<not> isdir info" using lnk(2) by (rule islnk_not_isdir)
  ultimately have "\<exists>ops. trace (world s') = trace (world s) @ ops
             \<and> (\<forall>x \<in> set ops. dest_op dest (temp_path_of env (fsys (world s)) dest) (fst x)
                    \<and> \<not> is_symlink_op (fst x) \<and> \<not> is_callback_op (fst x))
             \<and> (isdir info \<longrightarrow> (\<forall>x \<in> set ops. is_mkdir_op (fst x)))" by blast
  moreover have "deferred_symlinks s' = deferred_symlinks s"
    "deferred_dirs s' = deferred_dirs s"
    "extracted_paths s' \<subseteq> insert dest (extracted_paths s)"
    using lnk(7) by (cases ok1; cases ok2; auto)+
  ultimately show ?thesis using lnk(1) by (intro disjI2 exI [of _ dest]) blast
next
  case (regular dest rr m1 w1)
  let ?t = "temp_path_of env (fsys (world s)) dest"
  from streaming_ops [OF regular(3)] obtain sops where
    ts: "trace w1 = trace (world s) @ sops" and
    as: "\<forall>x \<in> set sops. dest_op dest ?t (fst x) \<and> \<not> is_symlink_op (fst x) \<and> \<not> is_callback_op (fst x)"
    by blast
  from apply_metadata_ops [of self env info dest w1 ?t] obtain mops where
    tm: "trace (apply_metadata self env info dest w1) = trace w1 @ mops" and
    am: "\<forall>x \<in> set mops. is_metadata_op (fst x) \<and> dest_op dest ?t (fst x)" by blast
  have am': "\<forall>x \<in> set mops. dest_op dest ?t (fst x) \<and> \<not> is_symlink_op (fst x) \<and> \<not> is_callback_op (fst x)"
  proof
    fix x assume "x \<in> set mops"
    with am have "is_metadata_op (fst x)" "dest_op dest ?t (fst x)" by auto
    then show "dest_op dest ?t (fst x) \<and> \<not> is_symlink_op (fst x) \<and> \<not> is_callback_op (fst x)"
      by (cases "fst x") auto
  qed
  let ?ops = "case rr of Inl e \<Rightarrow> sops | Inr u \<Rightarrow> sops @ mops"
  have "trace (world s') = trace (world s) @ ?ops"
    using regular(5) ts tm by (cases rr) simp_all
  moreover have "\<forall>x \<in> set ?ops. dest_op dest ?t (fst x) \<and> \<not> is_symlink_op (fst x) \<and> \<not> is_callback_op (fst x)"
    using as am' by (cases rr) auto
  ultimately have "\<exists>ops. trace (world s') = trace (world s) @ ops
             \<and> (\<forall>x \<in> set ops. dest_op dest ?t (fst x)
                    \<and> \<not> is_symlink_op (fst x) \<and> \<not> is_callback_op (fst x))
             \<and> (isdir info \<longrightarrow> (\<forall>x \<in> set ops. is_mkdir_op (fst x)))"
    using regular(2) by blast
  moreover have "deferred_symlinks s' = deferred_symlinks s"
    "deferred_dirs s' = deferred_dirs s"
    "extracted_paths s' \<subseteq> insert dest (extracted_paths s)"
    using regular(5) by (cases rr; auto)+
  ultimately show ?thesis using regular(1) by (intro disjI2 exI [of _ dest]) blast
qed

lemma fire_event_ops:
  "\<exists>ops. trace (fire_event self env info w) = trace w @ ops
     \<and> (\<forall>x \<in> set ops. is_callback_op (fst x))"
  by (auto simp: fire_event_def snd_do_call_trace)

lemma metadata_path_dest:
  "metadata_path c = Some q \<Longrightarrow> dest_op d t c \<Longrightarrow> q = d \<and> \<not> is_mkdir_op c"
  by (cases c) auto

lemma metadata_path_callback: "is_callback_op c \<Longrightarrow> metadata_path c = None \<and> \<not> is_symlink_op c"
  by (cases c) auto

text \<open>
  One iteration of the loop over the members: it creates no symlink, and a call that
  sets ownership, permissions or times belongs to a member that is not a directory and
  names the destination \<open>resolve_member_path\<close> gave that member when the iteration
  began.
\<close>

lemma one_step:
  assumes run: "extract_one self env info base_dir s = (r, s')"
  shows "(\<exists>ops. trace (world s') = trace (world s) @ ops
           \<and> (\<forall>x \<in> set ops. \<not> is_symlink_op (fst x))
           \<and> (\<forall>x \<in> set ops. \<forall>q. metadata_path (fst x) = Some q \<longrightarrow>
                  \<not> isdir info
                \<and> resolve_member_path env (fsys (world s)) base_dir (name info) = Inr q))
       \<and> extracted_paths s' \<subseteq> extracted_paths s
            \<union> {d. \<exists>fs. resolve_member_path env fs base_dir (name info) = Inr d}"
proof -
  obtain ri si where inner: "extract_one_inner self env info base_dir s = (ri, si)"
    by (cases "extract_one_inner self env info base_dir s")
  from fire_event_ops [of self env info "world si"] obtain fops where
    f: "trace (fire_event self env info (world si)) = trace (world si) @ fops"
       "\<forall>x \<in> set fops. is_callback_op (fst x)" by blast
  have outer: "\<exists>fo. trace (world s') = trace (world si) @ fo \<and> (\<forall>x \<in> set fo. is_callback_op (fst x))"
    and same: "extracted_paths s' = extracted_paths si"
    using run inner f by (auto simp: extract_one_def split: sum.splits if_splits)
  then obtain fo where fo: "trace (world s') = trace (world si) @ fo"
    "\<forall>x \<in> set fo. is_callback_op (fst x)" by blast
  from inner_step [OF inner] show ?thesis
  proof
    assume eq: "si = s"
    have nm: "\<forall>x \<in> set fo. metadata_path (fst x) = None \<and> \<not> is_symlink_op (fst x)"
      using fo(2) metadata_path_callback by blast
    have a: "\<forall>x \<in> set fo. \<not> is_symlink_op (fst x)" using nm by blast
    have b: "\<forall>x \<in> set fo. \<forall>q. metadata_path (fst x) = Some q \<longrightarrow>
                  \<not> isdir info
                \<and> resolve_member_path env (fsys (world s)) base_dir (name info) = Inr q"
      using nm by simp
    from fo(1) eq have "trace (world s') = trace (world s) @ fo" by simp
    with a b have "\<exists>ops. trace (world s') = trace (world s) @ ops
           \<and> (\<forall>x \<in> set ops. \<not> is_symlink_op (fst x))
           \<and> (\<forall>x \<in> set ops. \<forall>q. metadata_path (fst x) = Some q \<longrightarrow>
                  \<not> isdir info
                \<and> resolve_member_path env (fsys (world s)) base_dir (name info) = Inr q)"
      by blast
    moreover have "extracted_paths s' \<subseteq> extracted_paths s
            \<union> {d. \<exists>fs. resolve_member_path env fs base_dir (name info) = Inr d}"
      using same eq by auto
    ultimately show ?thesis by blast
  next
    assume "\<exists>dest. resolve_member_path env (fsys (world s)) base_dir (name info) = Inr dest
       \<and> (\<exists>ops. trace (world si) = trace (world s) @ ops
             \<and> (\<forall>x \<in> set ops. dest_op dest (temp_path_of env (fsys (world s)) dest) (fst x)
                    \<and> \<not> is_symlink_op (fst x) \<and> \<not> is_callback_op (fst x))
             \<and> (isdir info \<longrightarrow> (\<forall>x \<in> set ops. is_mkdir_op (fst x))))
       \<and> (deferred_symlinks si = deferred_symlinks s
            \<or> deferred_symlinks si = deferred_symlinks s @ [(dest, linkname info)])
       \<and> (deferred_dirs si = deferred_dirs s
            \<or> deferred_dirs si = deferred_dirs s @ [(info, dest)])
       \<and> extracted_paths si \<subseteq> insert dest (extracted_paths s)"
    then obtain dest ops where
      d: "resolve_member_path env (fsys (world s)) base_dir (name info) = Inr dest" and
      t: "trace (world si) = trace (world s) @ ops" and
      a: "\<forall>x \<in> set ops. dest_op dest (temp_path_of env (fsys (world s)) dest) (fst x)
                    \<and> \<not> is_symlink_op (fst x) \<and> \<not> is_callback_op (fst x)" and
      dr: "isdir info \<longrightarrow> (\<forall>x \<in> set ops. is_mkdir_op (fst x))" and
      ex: "extracted_paths si \<subseteq> insert dest (extracted_paths s)" by blast
    have tr: "trace (world s') = trace (world s) @ (ops @ fo)" using t fo by simp
    have p1: "\<forall>x \<in> set (ops @ fo). \<not> is_symlink_op (fst x)"
      using a fo by (auto dest: metadata_path_callback)
    have p2: "\<forall>x \<in> set (ops @ fo). \<forall>q. metadata_path (fst x) = Some q \<longrightarrow>
                  \<not> isdir info
                \<and> resolve_member_path env (fsys (world s)) base_dir (name info) = Inr q"
    proof (intro ballI allI impI)
      fix x q assume x: "x \<in> set (ops @ fo)" and m: "metadata_path (fst x) = Some q"
      have "x \<notin> set fo"
      proof
        assume "x \<in> set fo"
        with fo(2) have "is_callback_op (fst x)" by blast
        from metadata_path_callback [OF this] m show False by simp
      qed
      with x have xo: "x \<in> set ops" by simp
      with a have "dest_op dest (temp_path_of env (fsys (world s)) dest) (fst x)" by blast
      from metadata_path_dest [OF m this] have q: "q = dest" and nm: "\<not> is_mkdir_op (fst x)"
        by simp_all
      from dr xo nm have "\<not> isdir info" by blast
      with d q show "\<not> isdir info
          \<and> resolve_member_path env (fsys (world s)) base_dir (name info) = Inr q" by simp
    qed
    have p6: "extracted_paths s' \<subseteq> extracted_paths s
            \<union> {d. \<exists>fs. resolve_member_path env fs base_dir (name info) = Inr d}"
      using ex same d by auto
    from tr p1 p2 have "\<exists>ops. trace (world s') = trace (world s) @ ops
           \<and> (\<forall>x \<in> set ops. \<not> is_symlink_op (fst x))
           \<and> (\<forall>x \<in> set ops. \<forall>q. metadata_path (fst x) = Some q \<longrightarrow>
                  \<not> isdir info
                \<and> resolve_member_path env (fsys (world s)) base_dir (name info) = Inr q)"
      by blast
    with p6 show ?thesis by blast
  qed
qed

text \<open>What a successful iteration adds to the two queues.\<close>

lemma one_step_queues:
  assumes run: "extract_one self env info base_dir s = (Inr (), s')"
  shows "map fst (deferred_dirs s') = map fst (deferred_dirs s) @ (if isdir info then [info] else [])"
    and "map snd (deferred_symlinks s') = map snd (deferred_symlinks s)
          @ (if disposition_of self info = Inr DeferSymlink then [linkname info] else [])"
proof -
  obtain ri si where inner: "extract_one_inner self env info base_dir s = (ri, si)"
    by (cases "extract_one_inner self env info base_dir s")
  with run have ri: "ri = Inr ()" and si: "si = s'"
    by (auto simp: extract_one_def split: sum.splits if_splits)
  have sym: "\<not> isdir info" if "tar_type info = SYMTYPE"
    using that by (simp add: isdir_def tar_type_defs)
  from inner have "map fst (deferred_dirs si) = map fst (deferred_dirs s) @ (if isdir info then [info] else [])
    \<and> map snd (deferred_symlinks si) = map snd (deferred_symlinks s)
          @ (if disposition_of self info = Inr DeferSymlink then [linkname info] else [])"
  proof (cases rule: extract_one_inner_cases)
    case early
    with ri have sk: "disposition_of self info = Inr Skip" by simp
    with disposition_symlink [of self info] have "tar_type info = SYMTYPE" by simp
    with sk early(1) sym show ?thesis by simp
  next
    case (deferred dest)
    with disposition_symlink [of self info] have "tar_type info = SYMTYPE" by simp
    with deferred sym show ?thesis by simp
  next
    case (dir dest ok w1)
    with ri have ok by (simp split: if_splits)
    with dir show ?thesis by simp
  next
    case (lnk dest target ok1 w1 ok2 w2)
    with ri have "ok1 \<and> ok2" by (simp split: if_splits)
    with lnk islnk_not_isdir [OF lnk(2)] show ?thesis by simp
  next
    case (regular dest rr m1 w1)
    with ri have "rr = Inr ()" by simp
    with regular show ?thesis by simp
  qed
  with si show "map fst (deferred_dirs s') = map fst (deferred_dirs s) @ (if isdir info then [info] else [])"
    and "map snd (deferred_symlinks s') = map snd (deferred_symlinks s)
          @ (if disposition_of self info = Inr DeferSymlink then [linkname info] else [])"
    by simp_all
qed

text \<open>The loop over the members is the sequence of its iterations.\<close>

lemma loop_steps:
  "extract_loop self env base_dir infos s = (r, s')
   \<Longrightarrow> trace (world s') = trace (world s)
          @ concat (map (\<lambda>st. snd (snd st)) (member_steps self env base_dir infos s))
       \<and> extracted_paths s' \<subseteq> extracted_paths s
            \<union> {d. \<exists>i \<in> set infos. \<exists>fs. resolve_member_path env fs base_dir (name i) = Inr d}
       \<and> (r = Inr () \<longrightarrow>
            map fst (member_steps self env base_dir infos s) = infos
          \<and> map fst (deferred_dirs s') = map fst (deferred_dirs s) @ filter isdir infos
          \<and> map snd (deferred_symlinks s') = map snd (deferred_symlinks s)
              @ map linkname (filter (\<lambda>i. disposition_of self i = Inr DeferSymlink) infos))"
proof (induction infos arbitrary: s)
  case Nil
  then show ?case by simp
next
  case (Cons info infos)
  obtain r1 s1 where one: "extract_one self env info base_dir s = (r1, s1)"
    by (cases "extract_one self env info base_dir s")
  from one_step [OF one] obtain ops1 where
    t1: "trace (world s1) = trace (world s) @ ops1" and
    e1: "extracted_paths s1 \<subseteq> extracted_paths s
            \<union> {d. \<exists>fs. resolve_member_path env fs base_dir (name info) = Inr d}"
    by blast
  from t1 have calls: "drop (length (trace (world s))) (trace (world s1)) = ops1" by simp
  show ?case
  proof (cases r1)
    case (Inl e)
    with Cons.prems one have "s' = s1" "r = Inl e" by simp_all
    with t1 e1 one Inl calls show ?thesis by auto
  next
    case (Inr u)
    with Cons.prems one have l: "extract_loop self env base_dir infos s1 = (r, s')" by simp
    note ih = Cons.IH [OF l]
    from ih have t2: "trace (world s') = trace (world s1)
          @ concat (map (\<lambda>st. snd (snd st)) (member_steps self env base_dir infos s1))"
      and e2: "extracted_paths s' \<subseteq> extracted_paths s1
            \<union> {d. \<exists>i \<in> set infos. \<exists>fs. resolve_member_path env fs base_dir (name i) = Inr d}"
      and q2: "r = Inr () \<longrightarrow>
            map fst (member_steps self env base_dir infos s1) = infos
          \<and> map fst (deferred_dirs s') = map fst (deferred_dirs s1) @ filter isdir infos
          \<and> map snd (deferred_symlinks s') = map snd (deferred_symlinks s1)
              @ map linkname (filter (\<lambda>i. disposition_of self i = Inr DeferSymlink) infos)"
      by blast+
    from one Inr have one': "extract_one self env info base_dir s = (Inr (), s1)" by simp
    note q1 = one_step_queues [OF one']
    have ms: "member_steps self env base_dir (info # infos) s
        = (info, fsys (world s), ops1) # member_steps self env base_dir infos s1"
      using one Inr calls by simp
    have c1: "trace (world s') = trace (world s)
          @ concat (map (\<lambda>st. snd (snd st)) (member_steps self env base_dir (info # infos) s))"
      unfolding ms using t1 t2 by simp
    have c2: "extracted_paths s' \<subseteq> extracted_paths s
            \<union> {d. \<exists>i \<in> set (info # infos). \<exists>fs. resolve_member_path env fs base_dir (name i) = Inr d}"
      using e1 e2 by auto
    have c3: "r = Inr () \<longrightarrow>
            map fst (member_steps self env base_dir (info # infos) s) = info # infos
          \<and> map fst (deferred_dirs s') = map fst (deferred_dirs s) @ filter isdir (info # infos)
          \<and> map snd (deferred_symlinks s') = map snd (deferred_symlinks s)
              @ map linkname (filter (\<lambda>i. disposition_of self i = Inr DeferSymlink) (info # infos))"
      unfolding ms using q1 q2 by simp
    from c1 c2 c3 show ?thesis by blast
  qed
qed

lemma member_steps_calls:
  "\<forall>st \<in> set (member_steps self env base_dir infos s).
      (\<forall>x \<in> set (snd (snd st)). \<not> is_symlink_op (fst x))
    \<and> (\<forall>x \<in> set (snd (snd st)). \<forall>q. metadata_path (fst x) = Some q \<longrightarrow>
           \<not> isdir (fst st)
         \<and> resolve_member_path env (fst (snd st)) base_dir (name (fst st)) = Inr q)"
proof (induction infos arbitrary: s)
  case Nil
  then show ?case by simp
next
  case (Cons info infos)
  obtain r1 s1 where one: "extract_one self env info base_dir s = (r1, s1)"
    by (cases "extract_one self env info base_dir s")
  from one_step [OF one] obtain ops1 where
    t1: "trace (world s1) = trace (world s) @ ops1" and
    a1: "\<forall>x \<in> set ops1. \<not> is_symlink_op (fst x)" and
    b1: "\<forall>x \<in> set ops1. \<forall>q. metadata_path (fst x) = Some q \<longrightarrow>
                  \<not> isdir info
                \<and> resolve_member_path env (fsys (world s)) base_dir (name info) = Inr q"
    by blast
  from t1 have calls: "drop (length (trace (world s))) (trace (world s1)) = ops1" by simp
  have ms: "member_steps self env base_dir (info # infos) s
        = (info, fsys (world s), ops1) #
            (case r1 of Inl e \<Rightarrow> [] | Inr u \<Rightarrow> member_steps self env base_dir infos s1)"
    using one calls by simp
  show ?case
    unfolding ms using a1 b1 Cons.IH [of s1] by (cases r1) auto
qed

lemma symlink_loop_ops:
  "symlink_loop env base_dir defs w = (r, w')
   \<Longrightarrow> \<exists>ops. trace w' = trace w @ ops
        \<and> (\<forall>x \<in> set ops. \<exists>q \<in> set defs.
               fst x = Mkdir (path_parent (fst q)) \<or> fst x = Symlink (snd q) (fst q))
        \<and> (r = Inr () \<longrightarrow>
              filter (\<lambda>x. is_symlink_op (fst x)) ops
                = map (\<lambda>(p, tg). (Symlink tg p, True)) defs)"
proof (induction defs arbitrary: w)
  case Nil
  then show ?case by simp
next
  case (Cons q defs)
  obtain sp tg where q: "q = (sp, tg)" by (cases q)
  show ?case
  proof (cases "verify_symlink_chain env (fsys w) base_dir sp tg MAX_FOLLOW")
    case (Inl e)
    with Cons.prems q have "w' = w" "r = Inl e" by simp_all
    then show ?thesis by simp
  next
    case (Inr u)
    obtain ok1 w1 where c1: "do_call env (Mkdir (path_parent sp)) w = (ok1, w1)"
      by (cases "do_call env (Mkdir (path_parent sp)) w")
    note t1 = do_call_trace [OF c1]
    show ?thesis
    proof (cases ok1)
      case False
      with Cons.prems q Inr c1 have "w' = w1" "r = Inl OSError" by simp_all
      with t1 q show ?thesis by auto
    next
      case ok1: True
      obtain ok2 w2 where c2: "do_call env (Symlink tg sp) w1 = (ok2, w2)"
        by (cases "do_call env (Symlink tg sp) w1")
      note t2 = do_call_trace [OF c2]
      show ?thesis
      proof (cases ok2)
        case False
        with Cons.prems q Inr c1 ok1 c2 have "w' = w2" "r = Inl OSError" by simp_all
        with t1 t2 q have "trace w' = trace w @ [(Mkdir (path_parent sp), ok1), (Symlink tg sp, ok2)]"
          by simp
        moreover have "\<forall>x \<in> set [(Mkdir (path_parent sp), ok1), (Symlink tg sp, ok2)].
            \<exists>q' \<in> set (q # defs). fst x = Mkdir (path_parent (fst q')) \<or> fst x = Symlink (snd q') (fst q')"
          using q by simp
        ultimately show ?thesis using \<open>r = Inl OSError\<close> by blast
      next
        case ok2: True
        with Cons.prems q Inr c1 ok1 c2
        have "symlink_loop env base_dir defs w2 = (r, w')" by simp
        from Cons.IH [OF this] obtain ops where
          t: "trace w' = trace w2 @ ops" and
          a: "\<forall>x \<in> set ops. \<exists>q \<in> set defs.
               fst x = Mkdir (path_parent (fst q)) \<or> fst x = Symlink (snd q) (fst q)" and
          f: "r = Inr () \<longrightarrow> filter (\<lambda>x. is_symlink_op (fst x)) ops
                = map (\<lambda>(p, tg). (Symlink tg p, True)) defs" by blast
        let ?ops = "(Mkdir (path_parent sp), True) # (Symlink tg sp, True) # ops"
        have "trace w' = trace w @ ?ops" using t t1 t2 ok1 ok2 by simp
        moreover have "\<forall>x \<in> set ?ops. \<exists>q' \<in> set (q # defs).
               fst x = Mkdir (path_parent (fst q')) \<or> fst x = Symlink (snd q') (fst q')"
          using a q by auto
        moreover have "r = Inr () \<longrightarrow> filter (\<lambda>x. is_symlink_op (fst x)) ?ops
                = map (\<lambda>(p, tg). (Symlink tg p, True)) (q # defs)"
          using f q by simp
        ultimately show ?thesis by blast
      qed
    qed
  qed
qed

lemma dirs_loop_ops:
  "\<exists>ops. trace (dirs_loop self env dirs w) = trace w @ ops
     \<and> (\<forall>x \<in> set ops. is_metadata_op (fst x) \<and> (\<exists>q \<in> set dirs. dest_op (snd q) t (fst x)))"
proof (induction dirs arbitrary: w)
  case Nil
  then show ?case by simp
next
  case (Cons q dirs)
  obtain di dp where q: "q = (di, dp)" by (cases q)
  from apply_metadata_ops [of self env di dp w t] obtain o1 where
    t1: "trace (apply_metadata self env di dp w) = trace w @ o1" and
    a1: "\<forall>x \<in> set o1. is_metadata_op (fst x) \<and> dest_op dp t (fst x)" by blast
  from Cons.IH [of "apply_metadata self env di dp w"] obtain o2 where
    t2: "trace (dirs_loop self env dirs (apply_metadata self env di dp w))
          = trace (apply_metadata self env di dp w) @ o2" and
    a2: "\<forall>x \<in> set o2. is_metadata_op (fst x) \<and> (\<exists>q \<in> set dirs. dest_op (snd q) t (fst x))"
    by blast
  have "trace (dirs_loop self env (q # dirs) w) = trace w @ (o1 @ o2)"
    using q t1 t2 by simp
  moreover have "\<forall>x \<in> set (o1 @ o2). is_metadata_op (fst x)
      \<and> (\<exists>q' \<in> set (q # dirs). dest_op (snd q') t (fst x))"
    using a1 a2 q by auto
  ultimately show ?case by blast
qed

lemma extractall_cases [consumes 1, case_names nothing mkdir_fail members_fail loop_fail symlink_fail finished]:
  assumes run: "extractall self env path_arg members w = (r, w')"
  obtains
    (nothing) "w' = w"
  | (mkdir_fail) p base_dir where
      "path_arg = Some p" "resolve env (fsys w) p = Inr base_dir"
      "do_call env (Mkdir base_dir) w = (False, w')"
  | (members_fail) p base_dir where
      "path_arg = Some p" "resolve env (fsys w) p = Inr base_dir"
      "do_call env (Mkdir base_dir) w = (True, w')"
  | (loop_fail) p base_dir w1 infos e s1 where
      "path_arg = Some p" "resolve env (fsys w) p = Inr base_dir"
      "do_call env (Mkdir base_dir) w = (True, w1)"
      "members_of self members = Inr infos"
      "extract_loop self env base_dir infos (initial_state self w1) = (Inl e, s1)"
      "w' = world s1" "r = Inl e"
  | (symlink_fail) p base_dir w1 infos s1 e where
      "path_arg = Some p" "resolve env (fsys w) p = Inr base_dir"
      "do_call env (Mkdir base_dir) w = (True, w1)"
      "members_of self members = Inr infos"
      "extract_loop self env base_dir infos (initial_state self w1) = (Inr (), s1)"
      "symlink_loop env base_dir (deferred_symlinks s1) (world s1) = (Inl e, w')"
      "r = Inl e"
  | (finished) p base_dir w1 infos s1 w2 where
      "path_arg = Some p" "resolve env (fsys w) p = Inr base_dir"
      "do_call env (Mkdir base_dir) w = (True, w1)"
      "members_of self members = Inr infos"
      "extract_loop self env base_dir infos (initial_state self w1) = (Inr (), s1)"
      "symlink_loop env base_dir (deferred_symlinks s1) (world s1) = (Inr (), w2)"
      "w' = dirs_loop self env (deferred_dirs s1) w2" "r = Inr ()"
proof (cases path_arg)
  case None
  with run have "w' = w" by (simp add: extractall_def)
  then show ?thesis by (rule nothing)
next
  case (Some p)
  show ?thesis
  proof (cases "resolve env (fsys w) p")
    case (Inl e)
    with run Some have "w' = w" by (simp add: extractall_def)
    then show ?thesis by (rule nothing)
  next
    case b: (Inr base_dir)
    obtain ok w1 where c: "do_call env (Mkdir base_dir) w = (ok, w1)"
      by (cases "do_call env (Mkdir base_dir) w")
    show ?thesis
    proof (cases ok)
      case False
      with run Some b c have "w' = w1" by (simp add: extractall_def)
      with c False show ?thesis by (intro mkdir_fail [OF Some b]) simp
    next
      case ok: True
      show ?thesis
      proof (cases "members_of self members")
        case (Inl e)
        with run Some b c ok have "w' = w1" by (simp add: extractall_def members_of_def)
        with c ok show ?thesis by (intro members_fail [OF Some b]) simp
      next
        case m: (Inr infos)
        obtain r1 s1 where l: "extract_loop self env base_dir infos (initial_state self w1) = (r1, s1)"
          by (cases "extract_loop self env base_dir infos (initial_state self w1)")
        show ?thesis
        proof (cases r1)
          case (Inl e)
          with run Some b c ok m l have "w' = world s1" "r = Inl e"
            by (simp_all add: extractall_def members_of_def)
          with c ok l Inl show ?thesis by (intro loop_fail [OF Some b _ m]) simp_all
        next
          case (Inr u)
          obtain r2 w2 where sl: "symlink_loop env base_dir (deferred_symlinks s1) (world s1) = (r2, w2)"
            by (cases "symlink_loop env base_dir (deferred_symlinks s1) (world s1)")
          show ?thesis
          proof (cases r2)
            case (Inl e)
            with run Some b c ok m l Inr sl have "w' = w2" "r = Inl e"
              by (simp_all add: extractall_def members_of_def)
            with c ok l Inr sl Inl show ?thesis by (intro symlink_fail [OF Some b _ m]) simp_all
          next
            case r2: (Inr u2)
            with run Some b c ok m l Inr sl
            have "w' = dirs_loop self env (deferred_dirs s1) w2" "r = Inr ()"
              by (simp_all add: extractall_def members_of_def)
            with c ok l Inr sl r2 show ?thesis by (intro finished [OF Some b _ m]) simp_all
          qed
        qed
      qed
    qed
  qed
qed

section \<open>The order of the three phases\<close>

lemma concat_calls:
  "x \<in> set (concat (map (\<lambda>st. snd (snd st)) steps))
   \<Longrightarrow> \<exists>st \<in> set steps. x \<in> set (snd (snd st))"
  by auto

lemma dirs_loop_paths:
  "\<exists>ops. trace (dirs_loop self env dirs w) = trace w @ ops
     \<and> (\<forall>x \<in> set ops. is_metadata_op (fst x)
           \<and> (\<exists>q \<in> set dirs. metadata_path (fst x) = Some (snd q)))"
proof -
  from dirs_loop_ops [of self env dirs w "[]"] obtain ops where
    t: "trace (dirs_loop self env dirs w) = trace w @ ops" and
    a: "\<forall>x \<in> set ops. is_metadata_op (fst x) \<and> (\<exists>q \<in> set dirs. dest_op (snd q) [] (fst x))"
    by blast
  have m: "metadata_path c = Some d" if "is_metadata_op c" "dest_op d [] c" for c d
    using that by (cases c) auto
  from a have "\<forall>x \<in> set ops. is_metadata_op (fst x)
           \<and> (\<exists>q \<in> set dirs. metadata_path (fst x) = Some (snd q))"
    using m by blast
  with t show ?thesis by blast
qed

lemma deferred_dirs_are_dirs:
  "map fst dirs = filter isdir infos \<Longrightarrow> q \<in> set dirs \<Longrightarrow> isdir (fst q)"
proof -
  assume a: "map fst dirs = filter isdir infos" and q: "q \<in> set dirs"
  from q have "fst q \<in> set (map fst dirs)" by simp
  with a have "fst q \<in> set (filter isdir infos)" by simp
  then show "isdir (fst q)" by simp
qed

text \<open>
  Claim C5. In every run of \<open>extractall\<close> the calls made fall into three consecutive
  stretches \<open>t1\<close>, \<open>t2\<close> and \<open>t3\<close>.
  \<^item> \<open>t1\<close> is the creation of the base directory followed by the calls of the
    iterations of the loop over the members, one iteration per member, in order. It
    creates no symlink. A call in it that sets ownership, permissions or times is made
    by the iteration of a member that is not a directory, on that member's own
    destination: no metadata of a directory is applied there.
  \<^item> \<open>t2\<close> holds only the calls that create the deferred symlinks (each after the
    \<open>mkdir\<close> of its parent). It is empty unless the loop over the members has run to
    its end without an exception, so every member has had its iteration by then.
  \<^item> \<open>t3\<close> holds only \<open>chown\<close>, \<open>chmod\<close> and \<open>utime\<close> calls. It is empty unless every
    deferred symlink has been created; it is then the calls of the loop over the
    queue of directories, which holds exactly the directory members, in order, and
    each call in it names the destination of a directory member.
\<close>

theorem extractall_phase_order:
  assumes run: "extractall self env path_arg members w = (r, w')"
  shows "\<exists>t1 t2 t3.
      trace w' = trace w @ t1 @ t2 @ t3
    \<and> (\<forall>x \<in> set t1. \<not> is_symlink_op (fst x))
    \<and> (\<forall>x \<in> set t2. is_symlink_op (fst x) \<or> is_mkdir_op (fst x))
    \<and> (\<forall>x \<in> set t3. is_metadata_op (fst x))
    \<and> (t1 = [] \<or>
         (\<exists>p base_dir ok w1 steps.
             path_arg = Some p \<and> resolve env (fsys w) p = Inr base_dir
           \<and> do_call env (Mkdir base_dir) w = (ok, w1)
           \<and> t1 = (Mkdir base_dir, ok) # concat (map (\<lambda>st. snd (snd st)) steps)
           \<and> (steps = [] \<or>
                (\<exists>infos. ok \<and> members_of self members = Inr infos
                   \<and> steps = member_steps self env base_dir infos (initial_state self w1)))
           \<and> (\<forall>st \<in> set steps. \<forall>x \<in> set (snd (snd st)). \<forall>q.
                  metadata_path (fst x) = Some q \<longrightarrow>
                    \<not> isdir (fst st)
                  \<and> resolve_member_path env (fst (snd st)) base_dir (name (fst st)) = Inr q)))
    \<and> (t2 \<noteq> [] \<or> t3 \<noteq> [] \<longrightarrow>
         (\<exists>p base_dir w1 infos s1.
             path_arg = Some p \<and> resolve env (fsys w) p = Inr base_dir
           \<and> do_call env (Mkdir base_dir) w = (True, w1)
           \<and> members_of self members = Inr infos
           \<and> extract_loop self env base_dir infos (initial_state self w1) = (Inr (), s1)
           \<and> trace (world s1) = trace w @ t1
           \<and> map fst (member_steps self env base_dir infos (initial_state self w1)) = infos
           \<and> map fst (deferred_dirs s1) = filter isdir infos
           \<and> map snd (deferred_symlinks s1)
               = map linkname (filter (\<lambda>i. disposition_of self i = Inr DeferSymlink) infos)
           \<and> (t3 \<noteq> [] \<longrightarrow>
                (\<exists>w2. symlink_loop env base_dir (deferred_symlinks s1) (world s1) = (Inr (), w2)
                    \<and> trace w2 = trace w @ t1 @ t2
                    \<and> filter (\<lambda>x. is_symlink_op (fst x)) t2
                        = map (\<lambda>(p, tg). (Symlink tg p, True)) (deferred_symlinks s1)
                    \<and> trace (dirs_loop self env (deferred_dirs s1) w2) = trace w2 @ t3
                    \<and> (\<forall>x \<in> set t3. \<exists>q \<in> set (deferred_dirs s1).
                          isdir (fst q) \<and> metadata_path (fst x) = Some (snd q))))))"
  using run
proof (cases rule: extractall_cases)
  case nothing
  then show ?thesis
    by (intro exI [of _ "[]"]) simp
next
  case (mkdir_fail p base_dir)
  let ?t1 = "[(Mkdir base_dir, False)]"
  have c1: "trace w' = trace w @ ?t1 @ [] @ []"
    using do_call_trace [OF mkdir_fail(3)] by simp
  have c6: "\<exists>p base_dir' ok w1 steps.
             path_arg = Some p \<and> resolve env (fsys w) p = Inr base_dir'
           \<and> do_call env (Mkdir base_dir') w = (ok, w1)
           \<and> ?t1 = (Mkdir base_dir', ok) # concat (map (\<lambda>st. snd (snd st)) steps)
           \<and> (steps = [] \<or>
                (\<exists>infos. ok \<and> members_of self members = Inr infos
                   \<and> steps = member_steps self env base_dir' infos (initial_state self w1)))
           \<and> (\<forall>st \<in> set steps. \<forall>x \<in> set (snd (snd st)). \<forall>q.
                  metadata_path (fst x) = Some q \<longrightarrow>
                    \<not> isdir (fst st)
                  \<and> resolve_member_path env (fst (snd st)) base_dir' (name (fst st)) = Inr q)"
    using mkdir_fail
    by (intro exI [of _ p] exI [of _ base_dir] exI [of _ False] exI [of _ w']
        exI [of _ "[]"]) simp
  show ?thesis
    apply (rule exI [of _ ?t1], rule exI [of _ "[]"], rule exI [of _ "[]"])
    using c1 c6 by simp
next
  case (members_fail p base_dir)
  let ?t1 = "[(Mkdir base_dir, True)]"
  have c1: "trace w' = trace w @ ?t1 @ [] @ []"
    using do_call_trace [OF members_fail(3)] by simp
  have c6: "\<exists>p base_dir' ok w1 steps.
             path_arg = Some p \<and> resolve env (fsys w) p = Inr base_dir'
           \<and> do_call env (Mkdir base_dir') w = (ok, w1)
           \<and> ?t1 = (Mkdir base_dir', ok) # concat (map (\<lambda>st. snd (snd st)) steps)
           \<and> (steps = [] \<or>
                (\<exists>infos. ok \<and> members_of self members = Inr infos
                   \<and> steps = member_steps self env base_dir' infos (initial_state self w1)))
           \<and> (\<forall>st \<in> set steps. \<forall>x \<in> set (snd (snd st)). \<forall>q.
                  metadata_path (fst x) = Some q \<longrightarrow>
                    \<not> isdir (fst st)
                  \<and> resolve_member_path env (fst (snd st)) base_dir' (name (fst st)) = Inr q)"
    using members_fail
    by (intro exI [of _ p] exI [of _ base_dir] exI [of _ True] exI [of _ w']
        exI [of _ "[]"]) simp
  show ?thesis
    apply (rule exI [of _ ?t1], rule exI [of _ "[]"], rule exI [of _ "[]"])
    using c1 c6 by simp
next
  case (loop_fail p base_dir w1 infos e s1)
  define steps where "steps = member_steps self env base_dir infos (initial_state self w1)"
  let ?t1 = "(Mkdir base_dir, True) # concat (map (\<lambda>st. snd (snd st)) steps)"
  note calls = member_steps_calls [of self env base_dir infos "initial_state self w1",
      folded steps_def]
  from loop_steps [OF loop_fail(5)]
  have t: "trace (world s1) = trace (world (initial_state self w1))
      @ concat (map (\<lambda>st. snd (snd st)) steps)"
    unfolding steps_def by blast
  have c1: "trace w' = trace w @ ?t1 @ [] @ []"
    using t do_call_trace [OF loop_fail(3)] loop_fail(6) by (simp add: initial_state_def)
  have c2: "\<forall>x \<in> set ?t1. \<not> is_symlink_op (fst x)"
    using calls by (auto dest!: concat_calls)
  have c6: "\<exists>p base_dir' ok w1' steps'.
             path_arg = Some p \<and> resolve env (fsys w) p = Inr base_dir'
           \<and> do_call env (Mkdir base_dir') w = (ok, w1')
           \<and> ?t1 = (Mkdir base_dir', ok) # concat (map (\<lambda>st. snd (snd st)) steps')
           \<and> (steps' = [] \<or>
                (\<exists>infos. ok \<and> members_of self members = Inr infos
                   \<and> steps' = member_steps self env base_dir' infos (initial_state self w1')))
           \<and> (\<forall>st \<in> set steps'. \<forall>x \<in> set (snd (snd st)). \<forall>q.
                  metadata_path (fst x) = Some q \<longrightarrow>
                    \<not> isdir (fst st)
                  \<and> resolve_member_path env (fst (snd st)) base_dir' (name (fst st)) = Inr q)"
    apply (rule exI [of _ p], rule exI [of _ base_dir], rule exI [of _ True],
        rule exI [of _ w1], rule exI [of _ steps])
    using loop_fail(1-4) calls steps_def by blast
  show ?thesis
    apply (rule exI [of _ ?t1], rule exI [of _ "[]"], rule exI [of _ "[]"])
    using c1 c2 c6 by simp
next
  case (symlink_fail p base_dir w1 infos s1 e)
  define steps where "steps = member_steps self env base_dir infos (initial_state self w1)"
  let ?t1 = "(Mkdir base_dir, True) # concat (map (\<lambda>st. snd (snd st)) steps)"
  note calls = member_steps_calls [of self env base_dir infos "initial_state self w1",
      folded steps_def]
  from loop_steps [OF symlink_fail(5)]
  have t: "trace (world s1) = trace (world (initial_state self w1))
      @ concat (map (\<lambda>st. snd (snd st)) steps)"
    and q: "map fst steps = infos"
      "map fst (deferred_dirs s1) = filter isdir infos"
      "map snd (deferred_symlinks s1)
         = map linkname (filter (\<lambda>i. disposition_of self i = Inr DeferSymlink) infos)"
    unfolding steps_def by (simp_all add: initial_state_def)
  from symlink_loop_ops [OF symlink_fail(6)] obtain sops where
    ts: "trace w' = trace (world s1) @ sops" and
    as: "\<forall>x \<in> set sops. \<exists>q \<in> set (deferred_symlinks s1).
             fst x = Mkdir (path_parent (fst q)) \<or> fst x = Symlink (snd q) (fst q)" by blast
  have t1: "trace (world s1) = trace w @ ?t1"
    using t do_call_trace [OF symlink_fail(3)] by (simp add: initial_state_def)
  have c1: "trace w' = trace w @ ?t1 @ sops @ []" using t1 ts by simp
  have c2: "\<forall>x \<in> set ?t1. \<not> is_symlink_op (fst x)"
    using calls by (auto dest!: concat_calls)
  have c3: "\<forall>x \<in> set sops. is_symlink_op (fst x) \<or> is_mkdir_op (fst x)"
    using as by fastforce
  have c4: "\<forall>x \<in> set ([] :: (os_op \<times> bool) list). is_metadata_op (fst x)" by simp
  have c6: "?t1 = [] \<or> (\<exists>p base_dir' ok w1' steps'.
             path_arg = Some p \<and> resolve env (fsys w) p = Inr base_dir'
           \<and> do_call env (Mkdir base_dir') w = (ok, w1')
           \<and> ?t1 = (Mkdir base_dir', ok) # concat (map (\<lambda>st. snd (snd st)) steps')
           \<and> (steps' = [] \<or>
                (\<exists>infos. ok \<and> members_of self members = Inr infos
                   \<and> steps' = member_steps self env base_dir' infos (initial_state self w1')))
           \<and> (\<forall>st \<in> set steps'. \<forall>x \<in> set (snd (snd st)). \<forall>q.
                  metadata_path (fst x) = Some q \<longrightarrow>
                    \<not> isdir (fst st)
                  \<and> resolve_member_path env (fst (snd st)) base_dir' (name (fst st)) = Inr q))"
    apply (rule disjI2)
    apply (rule exI [of _ p], rule exI [of _ base_dir], rule exI [of _ True],
        rule exI [of _ w1], rule exI [of _ steps])
    using symlink_fail(1-4) calls steps_def by blast
  have c5: "sops \<noteq> [] \<or> ([] :: (os_op \<times> bool) list) \<noteq> [] \<longrightarrow>
         (\<exists>p base_dir w1 infos s1.
             path_arg = Some p \<and> resolve env (fsys w) p = Inr base_dir
           \<and> do_call env (Mkdir base_dir) w = (True, w1)
           \<and> members_of self members = Inr infos
           \<and> extract_loop self env base_dir infos (initial_state self w1) = (Inr (), s1)
           \<and> trace (world s1) = trace w @ ?t1
           \<and> map fst (member_steps self env base_dir infos (initial_state self w1)) = infos
           \<and> map fst (deferred_dirs s1) = filter isdir infos
           \<and> map snd (deferred_symlinks s1)
               = map linkname (filter (\<lambda>i. disposition_of self i = Inr DeferSymlink) infos)
           \<and> (([] :: (os_op \<times> bool) list) \<noteq> [] \<longrightarrow>
                (\<exists>w2. symlink_loop env base_dir (deferred_symlinks s1) (world s1) = (Inr (), w2)
                    \<and> trace w2 = trace w @ ?t1 @ sops
                    \<and> filter (\<lambda>x. is_symlink_op (fst x)) sops
                        = map (\<lambda>(p, tg). (Symlink tg p, True)) (deferred_symlinks s1)
                    \<and> trace (dirs_loop self env (deferred_dirs s1) w2) = trace w2 @ []
                    \<and> (\<forall>x \<in> set ([] :: (os_op \<times> bool) list). \<exists>q \<in> set (deferred_dirs s1).
                          isdir (fst q) \<and> metadata_path (fst x) = Some (snd q)))))"
    apply (rule impI)
    apply (rule exI [of _ p], rule exI [of _ base_dir], rule exI [of _ w1],
        rule exI [of _ infos], rule exI [of _ s1])
    using symlink_fail(1-5) t1 q unfolding steps_def by simp
  show ?thesis
    by (rule exI [of _ ?t1], rule exI [of _ sops], rule exI [of _ "[]"], intro conjI)
      (fact c1 | fact c2 | fact c3 | fact c4 | fact c5 | fact c6)+
next
  case (finished p base_dir w1 infos s1 w2)
  define steps where "steps = member_steps self env base_dir infos (initial_state self w1)"
  let ?t1 = "(Mkdir base_dir, True) # concat (map (\<lambda>st. snd (snd st)) steps)"
  note calls = member_steps_calls [of self env base_dir infos "initial_state self w1",
      folded steps_def]
  from loop_steps [OF finished(5)]
  have t: "trace (world s1) = trace (world (initial_state self w1))
      @ concat (map (\<lambda>st. snd (snd st)) steps)"
    and q: "map fst steps = infos"
      "map fst (deferred_dirs s1) = filter isdir infos"
      "map snd (deferred_symlinks s1)
         = map linkname (filter (\<lambda>i. disposition_of self i = Inr DeferSymlink) infos)"
    unfolding steps_def by (simp_all add: initial_state_def)
  from symlink_loop_ops [OF finished(6)] obtain sops where
    ts: "trace w2 = trace (world s1) @ sops" and
    as: "\<forall>x \<in> set sops. \<exists>q \<in> set (deferred_symlinks s1).
             fst x = Mkdir (path_parent (fst q)) \<or> fst x = Symlink (snd q) (fst q)" and
    fs: "filter (\<lambda>x. is_symlink_op (fst x)) sops
              = map (\<lambda>(p, tg). (Symlink tg p, True)) (deferred_symlinks s1)" by blast
  from dirs_loop_paths [of self env "deferred_dirs s1" w2] obtain dops where
    td: "trace (dirs_loop self env (deferred_dirs s1) w2) = trace w2 @ dops" and
    ad: "\<forall>x \<in> set dops. is_metadata_op (fst x)" and
    pd: "\<forall>x \<in> set dops. \<exists>q \<in> set (deferred_dirs s1). metadata_path (fst x) = Some (snd q)"
    by blast
  have pd': "\<forall>x \<in> set dops. \<exists>q \<in> set (deferred_dirs s1).
      isdir (fst q) \<and> metadata_path (fst x) = Some (snd q)"
    using pd deferred_dirs_are_dirs [OF q(2)] by blast
  have t1: "trace (world s1) = trace w @ ?t1"
    using t do_call_trace [OF finished(3)] by (simp add: initial_state_def)
  have t2: "trace w2 = trace w @ ?t1 @ sops" using t1 ts by simp
  have c1: "trace w' = trace w @ ?t1 @ sops @ dops" using t2 td finished(7) by simp
  have c2: "\<forall>x \<in> set ?t1. \<not> is_symlink_op (fst x)"
    using calls by (auto dest!: concat_calls)
  have c3: "\<forall>x \<in> set sops. is_symlink_op (fst x) \<or> is_mkdir_op (fst x)"
    using as by fastforce
  have c6: "?t1 = [] \<or> (\<exists>p base_dir' ok w1' steps'.
             path_arg = Some p \<and> resolve env (fsys w) p = Inr base_dir'
           \<and> do_call env (Mkdir base_dir') w = (ok, w1')
           \<and> ?t1 = (Mkdir base_dir', ok) # concat (map (\<lambda>st. snd (snd st)) steps')
           \<and> (steps' = [] \<or>
                (\<exists>infos. ok \<and> members_of self members = Inr infos
                   \<and> steps' = member_steps self env base_dir' infos (initial_state self w1')))
           \<and> (\<forall>st \<in> set steps'. \<forall>x \<in> set (snd (snd st)). \<forall>q.
                  metadata_path (fst x) = Some q \<longrightarrow>
                    \<not> isdir (fst st)
                  \<and> resolve_member_path env (fst (snd st)) base_dir' (name (fst st)) = Inr q))"
    apply (rule disjI2)
    apply (rule exI [of _ p], rule exI [of _ base_dir], rule exI [of _ True],
        rule exI [of _ w1], rule exI [of _ steps])
    using finished(1-4) calls steps_def by blast
  have inner: "\<exists>w2'. symlink_loop env base_dir (deferred_symlinks s1) (world s1) = (Inr (), w2')
                    \<and> trace w2' = trace w @ ?t1 @ sops
                    \<and> filter (\<lambda>x. is_symlink_op (fst x)) sops
                        = map (\<lambda>(p, tg). (Symlink tg p, True)) (deferred_symlinks s1)
                    \<and> trace (dirs_loop self env (deferred_dirs s1) w2') = trace w2' @ dops
                    \<and> (\<forall>x \<in> set dops. \<exists>q \<in> set (deferred_dirs s1).
                          isdir (fst q) \<and> metadata_path (fst x) = Some (snd q))"
    apply (rule exI [of _ w2])
    using finished(6) t2 fs td pd' by simp
  have c5: "sops \<noteq> [] \<or> dops \<noteq> [] \<longrightarrow>
         (\<exists>p base_dir w1 infos s1.
             path_arg = Some p \<and> resolve env (fsys w) p = Inr base_dir
           \<and> do_call env (Mkdir base_dir) w = (True, w1)
           \<and> members_of self members = Inr infos
           \<and> extract_loop self env base_dir infos (initial_state self w1) = (Inr (), s1)
           \<and> trace (world s1) = trace w @ ?t1
           \<and> map fst (member_steps self env base_dir infos (initial_state self w1)) = infos
           \<and> map fst (deferred_dirs s1) = filter isdir infos
           \<and> map snd (deferred_symlinks s1)
               = map linkname (filter (\<lambda>i. disposition_of self i = Inr DeferSymlink) infos)
           \<and> (dops \<noteq> [] \<longrightarrow>
                (\<exists>w2. symlink_loop env base_dir (deferred_symlinks s1) (world s1) = (Inr (), w2)
                    \<and> trace w2 = trace w @ ?t1 @ sops
                    \<and> filter (\<lambda>x. is_symlink_op (fst x)) sops
                        = map (\<lambda>(p, tg). (Symlink tg p, True)) (deferred_symlinks s1)
                    \<and> trace (dirs_loop self env (deferred_dirs s1) w2) = trace w2 @ dops
                    \<and> (\<forall>x \<in> set dops. \<exists>q \<in> set (deferred_dirs s1).
                          isdir (fst q) \<and> metadata_path (fst x) = Some (snd q)))))"
    apply (rule impI)
    apply (rule exI [of _ p], rule exI [of _ base_dir], rule exI [of _ w1],
        rule exI [of _ infos], rule exI [of _ s1])
    using finished(1-5) t1 q inner unfolding steps_def by simp
  show ?thesis
    by (rule exI [of _ ?t1], rule exI [of _ sops], rule exI [of _ dops], intro conjI)
      (fact c1 | fact c2 | fact c3 | fact ad | fact c5 | fact c6)+
qed


lemma follow_chain_no_link:
  "\<not> is_symlink env fs current \<Longrightarrow> follow_chain env fs base MAX_FOLLOW current = Inr ()"
  by (simp add: MAX_FOLLOW_def eval_nat_numeral)

lemmas run_defs = extractall_def members_of_def ref_env_def empty_world_def
      initial_state_def new_monitor_def extract_one_def extract_one_inner_def
      validate_entry_type_def is_sparse_def type_set_defs tar_type_defs
      validate_filename_def effective_name_def str_strip_def MAX_PATH_def validate_pax_path_def
      resolve_member_path_def try_resolve_def str_replace_def startswith_def joinpath_def
      path_root_def path_parts_def path_str_def inside_base_def isdir_def islnk_def issym_def
      do_call_def extract_member_streaming_def stream_body_def temp_path_of_def SAFETAR_TMP_def
      reset_member_def account_def check_ratio_def py_truediv_def apply_metadata_def
      sanitise_mode_def sanitise_mtime_def SPECIAL_BITS_def WRITE_BITS_def path_parent_def
      verify_symlink_chain_def verify_hardlink_target_def follow_chain_no_link
      fire_event_def event_type_for_def ascii_def Let_def

text \<open>
  Two stretches of calls, the first made of calls of one kind and the second of calls of
  another, are told apart by the kinds alone.
\<close>

lemma split_by_kind:
  assumes eq: "xs @ ys = as @ bs"
    and xs: "\<forall>x \<in> set xs. P x" and ys: "\<forall>x \<in> set ys. Q x"
    and as: "\<forall>x \<in> set as. \<not> Q x" and bs: "\<forall>x \<in> set bs. \<not> P x"
  shows "xs = as \<and> ys = bs"
proof -
  from eq obtain us where
    "(xs = as @ us \<and> us @ ys = bs) \<or> (xs @ us = as \<and> ys = us @ bs)"
    unfolding append_eq_append_conv2 by blast
  then show ?thesis
  proof
    assume a: "xs = as @ us \<and> us @ ys = bs"
    have "us = []"
    proof (cases us)
      case (Cons u us')
      with a have "u \<in> set xs" "u \<in> set bs" by auto
      with xs bs show ?thesis by blast
    qed simp
    with a show ?thesis by simp
  next
    assume a: "xs @ us = as \<and> ys = us @ bs"
    have "us = []"
    proof (cases us)
      case (Cons u us')
      with a have "u \<in> set ys" "u \<in> set as" by auto
      with ys as show ?thesis by blast
    qed simp
    with a show ?thesis by simp
  qed
qed

theorem extractall_phase_order_witness:
  "fst (extractall example_stf (ref_env no_faults) (Some (ascii ''/out'')) None empty_world) = Inr ()
   \<and> map (\<lambda>st. (name (fst st), snd (snd st)))
       (member_steps example_stf (ref_env no_faults) (ascii ''/out'')
          [example_info\<lparr>name := ascii ''d'', tar_type := DIRTYPE, mode := Some 2541\<rparr>,
           example_info\<lparr>name := ascii ''d/a.txt''\<rparr>,
           example_info\<lparr>name := ascii ''d/link'', tar_type := SYMTYPE, linkname := ascii ''a.txt''\<rparr>]
          (initial_state example_stf
             \<lparr>fsys = [ascii ''/out''], trace = [(Mkdir (ascii ''/out''), True)]\<rparr>))
      = [(ascii ''d'', [(Mkdir (ascii ''/out/d''), True)]),
         (ascii ''d/a.txt'',
          [(Mkdir (ascii ''/out/d''), True),
           (OpenWb (ascii ''/out/d/a.txt.safetar_tmp_4242_000007''), True),
           (Write (ascii ''/out/d/a.txt.safetar_tmp_4242_000007'') ''hello'', True),
           (Close (ascii ''/out/d/a.txt.safetar_tmp_4242_000007''), True),
           (Rename (ascii ''/out/d/a.txt.safetar_tmp_4242_000007'') (ascii ''/out/d/a.txt''), True),
           (Chmod (ascii ''/out/d/a.txt'') 420, True),
           (Utime (ascii ''/out/d/a.txt'') 0, True)]),
         (ascii ''d/link'', [])]
   \<and> (\<exists>t1 t2 t3.
        trace (snd (extractall example_stf (ref_env no_faults) (Some (ascii ''/out'')) None
                 empty_world)) = t1 @ t2 @ t3
        \<and> t1 = [(Mkdir (ascii ''/out''), True),
                 (Mkdir (ascii ''/out/d''), True),
                 (Mkdir (ascii ''/out/d''), True),
                 (OpenWb (ascii ''/out/d/a.txt.safetar_tmp_4242_000007''), True),
                 (Write (ascii ''/out/d/a.txt.safetar_tmp_4242_000007'') ''hello'', True),
                 (Close (ascii ''/out/d/a.txt.safetar_tmp_4242_000007''), True),
                 (Rename (ascii ''/out/d/a.txt.safetar_tmp_4242_000007'') (ascii ''/out/d/a.txt''), True),
                 (Chmod (ascii ''/out/d/a.txt'') 420, True),
                 (Utime (ascii ''/out/d/a.txt'') 0, True)]
        \<and> t2 = [(Mkdir (ascii ''/out/d''), True),
                 (Symlink (ascii ''a.txt'') (ascii ''/out/d/link''), True)]
        \<and> t3 = [(Chmod (ascii ''/out/d'') 493, True),
                 (Utime (ascii ''/out/d'') 0, True)])"
proof -
  let ?env = "ref_env no_faults"
  let ?R = "extractall example_stf ?env (Some (ascii ''/out'')) None empty_world"
  let ?infos = "[example_info\<lparr>name := ascii ''d'', tar_type := DIRTYPE, mode := Some 2541\<rparr>,
           example_info\<lparr>name := ascii ''d/a.txt''\<rparr>,
           example_info\<lparr>name := ascii ''d/link'', tar_type := SYMTYPE, linkname := ascii ''a.txt''\<rparr>]"
  let ?w1 = "\<lparr>fsys = [ascii ''/out''], trace = [(Mkdir (ascii ''/out''), True)]\<rparr>"
  let ?S = "[(Mkdir (ascii ''/out/d''), True)]
     @ [(Mkdir (ascii ''/out/d''), True),
           (OpenWb (ascii ''/out/d/a.txt.safetar_tmp_4242_000007''), True),
           (Write (ascii ''/out/d/a.txt.safetar_tmp_4242_000007'') ''hello'', True),
           (Close (ascii ''/out/d/a.txt.safetar_tmp_4242_000007''), True),
           (Rename (ascii ''/out/d/a.txt.safetar_tmp_4242_000007'') (ascii ''/out/d/a.txt''), True),
           (Chmod (ascii ''/out/d/a.txt'') 420, True),
           (Utime (ascii ''/out/d/a.txt'') 0, True)]"
  let ?A = "(Mkdir (ascii ''/out''), True) # ?S"
  let ?B = "[(Mkdir (ascii ''/out/d''), True),
             (Symlink (ascii ''a.txt'') (ascii ''/out/d/link''), True)]"
  let ?C = "[(Chmod (ascii ''/out/d'') 493, True), (Utime (ascii ''/out/d'') 0, True)]"
  have res: "fst ?R = Inr ()"
    by (simp add: run_defs example_stf_def example_info_def)
  have tr: "trace (snd ?R) = ?A @ ?B @ ?C"
    by (simp add: run_defs example_stf_def example_info_def)
  have steps: "map (\<lambda>st. (name (fst st), snd (snd st)))
       (member_steps example_stf ?env (ascii ''/out'') ?infos (initial_state example_stf ?w1))
      = [(ascii ''d'', [(Mkdir (ascii ''/out/d''), True)]),
         (ascii ''d/a.txt'',
          [(Mkdir (ascii ''/out/d''), True),
           (OpenWb (ascii ''/out/d/a.txt.safetar_tmp_4242_000007''), True),
           (Write (ascii ''/out/d/a.txt.safetar_tmp_4242_000007'') ''hello'', True),
           (Close (ascii ''/out/d/a.txt.safetar_tmp_4242_000007''), True),
           (Rename (ascii ''/out/d/a.txt.safetar_tmp_4242_000007'') (ascii ''/out/d/a.txt''), True),
           (Chmod (ascii ''/out/d/a.txt'') 420, True),
           (Utime (ascii ''/out/d/a.txt'') 0, True)]),
         (ascii ''d/link'', [])]"
    by (simp add: run_defs example_stf_def example_info_def)
  have calls: "concat (map (\<lambda>st. snd (snd st))
       (member_steps example_stf ?env (ascii ''/out'') ?infos (initial_state example_stf ?w1)))
      = ?S"
  proof -
    have "concat (map (\<lambda>st. snd (snd st))
       (member_steps example_stf ?env (ascii ''/out'') ?infos (initial_state example_stf ?w1)))
      = concat (map snd (map (\<lambda>st. (name (fst st), snd (snd st)))
       (member_steps example_stf ?env (ascii ''/out'') ?infos (initial_state example_stf ?w1))))"
      by (simp add: comp_def)
    also have "\<dots> = ?S" unfolding steps by simp
    finally show ?thesis .
  qed
  have b: "resolve ?env (fsys empty_world) (ascii ''/out'') = Inr bd \<longleftrightarrow> bd = ascii ''/out''" for bd
    by (auto simp: ref_env_def)
  have mk: "do_call ?env (Mkdir (ascii ''/out'')) empty_world = (ok, w1)
      \<longleftrightarrow> ok \<and> w1 = ?w1" for ok w1
    by (auto simp: do_call_def ref_env_def empty_world_def)
  have mem: "members_of example_stf None = Inr infos \<longleftrightarrow> infos = ?infos" for infos
    by (auto simp: members_of_def example_stf_def)
  obtain r w' where run: "?R = (r, w')" by (cases ?R)
  from extractall_phase_order [OF run]
  obtain t1 t2 t3 where
    d: "trace w' = trace empty_world @ t1 @ t2 @ t3" and
    p2: "\<forall>x \<in> set t2. is_symlink_op (fst x) \<or> is_mkdir_op (fst x)" and
    p3: "\<forall>x \<in> set t3. is_metadata_op (fst x)" and
    c6: "t1 = [] \<or>
         (\<exists>p base_dir ok w1 steps.
             Some (ascii ''/out'') = Some p \<and> resolve ?env (fsys empty_world) p = Inr base_dir
           \<and> do_call ?env (Mkdir base_dir) empty_world = (ok, w1)
           \<and> t1 = (Mkdir base_dir, ok) # concat (map (\<lambda>st. snd (snd st)) steps)
           \<and> (steps = [] \<or>
                (\<exists>infos. ok \<and> members_of example_stf None = Inr infos
                   \<and> steps = member_steps example_stf ?env base_dir infos
                        (initial_state example_stf w1)))
           \<and> (\<forall>st \<in> set steps. \<forall>x \<in> set (snd (snd st)). \<forall>q.
                  metadata_path (fst x) = Some q \<longrightarrow>
                    \<not> isdir (fst st)
                  \<and> resolve_member_path ?env (fst (snd st)) base_dir (name (fst st)) = Inr q))"
    by blast
  from d tr run have all: "t1 @ t2 @ t3 = ?A @ ?B @ ?C" by (simp add: empty_world_def)
  have ow: "(OpenWb (ascii ''/out/d/a.txt.safetar_tmp_4242_000007''), True) \<in> set (t1 @ t2 @ t3)"
    unfolding all by simp
  have rest: "\<not> (\<exists>x \<in> set (t2 @ t3). fst x = OpenWb (ascii ''/out/d/a.txt.safetar_tmp_4242_000007''))"
    using p2 p3 by auto
  from c6 have "t1 = [] \<or> (\<exists>ok. t1 = [(Mkdir (ascii ''/out''), ok)]) \<or> t1 = ?A"
  proof (elim disjE exE conjE)
    assume "t1 = []"
    then show ?thesis by simp
  next
    fix p base_dir ok w1 stp
    assume p: "Some (ascii ''/out'') = Some p"
      and rb: "resolve ?env (fsys empty_world) p = Inr base_dir"
      and t: "t1 = (Mkdir base_dir, ok) # concat (map (\<lambda>st. snd (snd st)) stp)"
      and s: "stp = []"
    from p rb have bd: "base_dir = ascii ''/out''" using b by simp
    with t s show ?thesis by simp
  next
    fix p base_dir ok w1 stp infos
    assume p: "Some (ascii ''/out'') = Some p"
      and rb: "resolve ?env (fsys empty_world) p = Inr base_dir"
      and m: "do_call ?env (Mkdir base_dir) empty_world = (ok, w1)"
      and t: "t1 = (Mkdir base_dir, ok) # concat (map (\<lambda>st. snd (snd st)) stp)"
      and ok: ok and mm: "members_of example_stf None = Inr infos"
      and st: "stp = member_steps example_stf ?env base_dir infos
                        (initial_state example_stf w1)"
    from p rb have bd: "base_dir = ascii ''/out''" using b by simp
    from m bd have w1: "w1 = ?w1" using mk by simp
    from mm have infos: "infos = ?infos" using mem by simp
    have "concat (map (\<lambda>st. snd (snd st)) stp) = ?S"
      unfolding st bd w1 infos by (rule calls)
    with t bd ok show ?thesis by simp
  qed
  then have t1: "t1 = ?A"
  proof (elim disjE exE)
    assume "t1 = []"
    with ow rest show ?thesis by force
  next
    fix ok assume "t1 = [(Mkdir (ascii ''/out''), ok)]"
    with ow rest show ?thesis by force
  qed
  with all have "t2 @ t3 = ?B @ ?C" by simp
  from split_by_kind [OF this p2 p3] have "t2 = ?B \<and> t3 = ?C" by simp
  with t1 d run have "\<exists>t1 t2 t3. trace (snd ?R) = t1 @ t2 @ t3 \<and> t1 = ?A \<and> t2 = ?B \<and> t3 = ?C"
    by (simp add: empty_world_def)
  with res steps show ?thesis by simp
qed


section \<open>Hardlink targets\<close>

















end
